theory Spec2Isabelle
  imports Main "HOL-Library.Word"
begin

section \<open>csv2struct: binding CSV rows to struct fields\<close>

text \<open>
  A shallow embedding of \<^verbatim>\<open>csv_to_struct.go\<close> and \<^verbatim>\<open>errors.go\<close>. The file
  \<^verbatim>\<open>csv_to_struct.go\<close> holds two revisions of the decoder. The first one (lines 1-258) is
  the one embedded under the source's names. The second revision (lines 259-539) has the same
  \<^verbatim>\<open>NewDecodeStruct\<close>, \<^verbatim>\<open>ParseHeader\<close>, \<^verbatim>\<open>reset\<close> and \<^verbatim>\<open>UnmarshalCSV\<close>; the
  functions in which it differs (\<^verbatim>\<open>unmarshal\<close>, \<^verbatim>\<open>setField\<close>, \<^verbatim>\<open>setCustomField\<close>,
  \<^verbatim>\<open>isSupportedField\<close>) are embedded with the suffix \<open>_v2\<close>.

  Go strings are byte strings: \<open>string\<close>. A returned \<^verbatim>\<open>error\<close> is a value of the datatype
  \<open>error\<close>, \<^verbatim>\<open>nil\<close> is \<open>None\<close>, and a panic is the value \<open>Panic\<close>. The decoder mutates
  its receiver and the target struct in place, also on the paths that return an error, so
  every operation returns the state it leaves behind next to its error.
\<close>

subsection \<open>Errors\<close>

datatype numerr = ErrSyntax | ErrRange

datatype error =
    IncorrectFileErr string
  | ErrorString string
  | NumError string string numerr
  | ParseError string
  | Panic string

text \<open>
  \<open>IncorrectFileErr\<close> is the struct of \<^verbatim>\<open>errors.go\<close> with its message; \<open>ErrorString\<close> is
  what \<^verbatim>\<open>errors.New\<close> and \<^verbatim>\<open>fmt.Errorf\<close> return; \<open>NumError\<close> is
  \<^verbatim>\<open>*strconv.NumError{Func, Num, Err}\<close>; \<open>ParseError\<close> is \<^verbatim>\<open>*time.ParseError\<close>.
\<close>

definition NewIncorrectFileErr :: "string \<Rightarrow> error" where
  "NewIncorrectFileErr message = IncorrectFileErr message"

subsection \<open>The Go library functions the decoder calls\<close>

text \<open>
  \<^verbatim>\<open>strings.ToLower\<close>, \<^verbatim>\<open>strings.TrimSpace\<close> and \<^verbatim>\<open>strings.Split\<close> work on Unicode
  code points, the verb \<^verbatim>\<open>%q\<close> of \<^verbatim>\<open>fmt.Sprintf\<close> is \<^verbatim>\<open>strconv.Quote\<close>,
  \<^verbatim>\<open>strconv.ParseFloat\<close> rounds to an IEEE double and \<^verbatim>\<open>time.Parse\<close> interprets a layout.
  None of them is code of this repository. They are parameters of the model: every
  theorem below holds for whatever these functions compute, and says so where it needs
  something of them. A float64 is its 64 bits, a
  float32 its 32 bits, and a \<^verbatim>\<open>time.Time\<close> is an instant counted from the zero time.
\<close>

datatype time_Time = Time int

record golib =
  strings_ToLower :: "string \<Rightarrow> string"
  strings_TrimSpace :: "string \<Rightarrow> string"
  strings_Split :: "string \<Rightarrow> string \<Rightarrow> string list"
  strconv_Quote :: "string \<Rightarrow> string"
  strconv_ParseFloat :: "string \<Rightarrow> numerr + 64 word"
  float32_of :: "64 word \<Rightarrow> 32 word"
  time_Parse :: "string \<Rightarrow> string \<Rightarrow> string + time_Time"

subsection \<open>Types as \<^verbatim>\<open>reflect\<close> shows them\<close>

text \<open>
  \<^verbatim>\<open>reflect.Kind\<close>, without \<^verbatim>\<open>reflect.Ptr\<close>: a pointer type is the constructor
  \<open>PtrTo\<close> of \<open>rtype\<close>, whose argument is \<^verbatim>\<open>Type.Elem()\<close>. Every other type is
  \<open>Ty k n\<close> with \<open>k\<close> its \<^verbatim>\<open>Kind()\<close> and \<open>n\<close> its \<^verbatim>\<open>String()\<close>.
\<close>

datatype kind =
    reflect_Bool
  | reflect_Int | reflect_Int8 | reflect_Int16 | reflect_Int32 | reflect_Int64
  | reflect_Uint | reflect_Uint8 | reflect_Uint16 | reflect_Uint32 | reflect_Uint64
  | reflect_Uintptr
  | reflect_Float32 | reflect_Float64
  | reflect_Complex64 | reflect_Complex128
  | reflect_Array | reflect_Chan | reflect_Func | reflect_Interface | reflect_Map
  | reflect_Slice | reflect_String | reflect_Struct | reflect_UnsafePointer

datatype rtype = Ty kind string | PtrTo rtype

fun type_String :: "rtype \<Rightarrow> string" where
  "type_String (Ty k n) = n"
| "type_String (PtrTo t) = CHR ''*'' # type_String t"

definition int_kinds :: "kind list" where
  "int_kinds = [reflect_Int, reflect_Int8, reflect_Int16, reflect_Int32, reflect_Int64]"

definition uint_kinds :: "kind list" where
  "uint_kinds = [reflect_Uint, reflect_Uint8, reflect_Uint16, reflect_Uint32, reflect_Uint64]"

definition float_kinds :: "kind list" where
  "float_kinds = [reflect_Float32, reflect_Float64]"

text \<open>A struct field as \<^verbatim>\<open>reflect.StructField\<close>: name, type, tag (key to value) and
  whether it is exported. A struct type is its name and its fields.\<close>

record sfield =
  fname :: string
  ftype :: rtype
  ftag :: "(string \<times> string) list"
  exported :: bool

record struct_type =
  tname :: string
  tfields :: "sfield list"

definition Tag_Get :: "(string \<times> string) list \<Rightarrow> string \<Rightarrow> string" where
  "Tag_Get tg key = (case map_of tg key of None \<Rightarrow> [] | Some v \<Rightarrow> v)"

subsection \<open>The decoder\<close>

text \<open>
  \<open>cols\<close> is a slice of pointers to distinct \<open>csvFieldInfo\<close> objects and \<open>foundCols\<close>
  holds pointers to the same objects. The objects are the elements of the list \<open>cols\<close>
  and a pointer is a position in it, so a write through one pointer is seen through all.
\<close>

record csvFieldInfo =
  Header :: string
  Required :: bool
  RecordIndex :: int
  StructFieldIndex :: nat

record DecodeStruct =
  cols :: "csvFieldInfo list"
  foundCols :: "nat list"
  recordType :: struct_type
  timeFormat :: string
  csvTagName :: string
  csvTagFieldSep :: string

definition defaultCSVTagName :: string where
  "defaultCSVTagName = ''csv''"

definition defaultCSVTagFieldSep :: string where
  "defaultCSVTagFieldSep = '',''"

definition time_RFC3339 :: string where
  "time_RFC3339 = ''2006-01-02T15:04:05Z07:00''"

text \<open>
  The options are the three functions the package exports; an option is applied to the
  decoder under construction.
\<close>

datatype opt = WithTimeFormat string | WithCSVTagName string | WithCSVTagFieldSep string

fun apply_opt :: "opt \<Rightarrow> DecodeStruct \<Rightarrow> DecodeStruct" where
  "apply_opt (WithTimeFormat s) c = c\<lparr>timeFormat := s\<rparr>"
| "apply_opt (WithCSVTagName n) c = c\<lparr>csvTagName := n\<rparr>"
| "apply_opt (WithCSVTagFieldSep s) c = c\<lparr>csvTagFieldSep := s\<rparr>"

subsubsection \<open>isSupportedField\<close>

fun isSupportedField :: "rtype \<Rightarrow> bool" where
  "isSupportedField (PtrTo t) = isSupportedField t"
| "isSupportedField (Ty k n) =
     (if k \<in> set (int_kinds @ uint_kinds @ float_kinds @ [reflect_Bool, reflect_String]) then True
      else if k = reflect_Struct then (if n = ''time.Time'' then True else False)
      else False)"

fun isSupportedField_v2 :: "rtype \<Rightarrow> bool" where
  "isSupportedField_v2 (PtrTo t) = isSupportedField_v2 t"
| "isSupportedField_v2 (Ty k n) =
     (if k \<in> set [reflect_Map, reflect_Slice, reflect_Array] then False
      else if k = reflect_Struct then (if n = ''time.Time'' then True else False)
      else True)"

subsubsection \<open>NewDecodeStruct\<close>

text \<open>
  The argument of \<^verbatim>\<open>NewDecodeStruct\<close>: a struct, a pointer to a struct, or anything else
  (for which the function panics before it looks at a field).
\<close>

datatype arg = StructVal struct_type | PtrToStruct struct_type | NotStruct

definition unsupported_msg :: "string \<Rightarrow> string" where
  "unsupported_msg t = ''CSV struct reader does not support struct field with type: '' @ t"

text \<open>
  The loop over the fields, \<open>i\<close> the index of the head of the remaining fields. The test
  of the field's type is the parameter \<open>supp\<close>, since the two revisions differ in nothing
  else. \<^verbatim>\<open>tagFields[0]\<close> panics on an empty slice, which is a branch here.
\<close>

fun NewDecodeStruct_fields ::
  "(rtype \<Rightarrow> bool) \<Rightarrow> golib \<Rightarrow> DecodeStruct \<Rightarrow> sfield list \<Rightarrow> nat \<Rightarrow> error + DecodeStruct" where
  "NewDecodeStruct_fields supp lib reader [] i = Inr reader"
| "NewDecodeStruct_fields supp lib reader (f # fs) i =
     (if \<not> supp (ftype f) then Inl (Panic (unsupported_msg (type_String (ftype f))))
      else
        let csvTag = Tag_Get (ftag f) (csvTagName reader) in
        if csvTag = ''-'' then NewDecodeStruct_fields supp lib reader fs (Suc i)
        else
          (case (if length csvTag > 0
                 then (case strings_Split lib csvTag (csvTagFieldSep reader) of
                         [] \<Rightarrow> Inl (Panic ''index out of range'')
                       | h # rest \<Rightarrow>
                           Inr (h, length (h # rest) > 1 \<and> (h # rest) ! 1 = ''required''))
                 else Inr (fname f, False)) of
             Inl e \<Rightarrow> Inl e
           | Inr (headerName, required) \<Rightarrow>
               NewDecodeStruct_fields supp lib
                 (reader\<lparr>cols := cols reader @
                    [\<lparr>Header = strings_ToLower lib headerName, Required = required,
                      RecordIndex = - 1, StructFieldIndex = i\<rparr>]\<rparr>)
                 fs (Suc i)))"

text \<open>The decoder \<^verbatim>\<open>NewDecodeStruct\<close> starts from, before the options are applied.\<close>

definition new_reader :: DecodeStruct where
  "new_reader =
     \<lparr>cols = [], foundCols = [], recordType = \<lparr>tname = [], tfields = []\<rparr>,
      timeFormat = time_RFC3339, csvTagName = defaultCSVTagName,
      csvTagFieldSep = defaultCSVTagFieldSep\<rparr>"

definition NewDecodeStruct_with ::
  "(rtype \<Rightarrow> bool) \<Rightarrow> golib \<Rightarrow> arg \<Rightarrow> opt list \<Rightarrow> error + DecodeStruct" where
  "NewDecodeStruct_with supp lib v opts =
     (case (case v of StructVal st \<Rightarrow> Some st | PtrToStruct st \<Rightarrow> Some st | NotStruct \<Rightarrow> None) of
        None \<Rightarrow> Inl (Panic ''argument of NewDecodeStruct must be an struct or pointer to struct'')
      | Some rt \<Rightarrow>
          (let reader = fold apply_opt opts new_reader
           in case NewDecodeStruct_fields supp lib reader (tfields rt) 0 of
                Inl e \<Rightarrow> Inl e
              | Inr reader' \<Rightarrow> Inr (reader'\<lparr>recordType := rt\<rparr>)))"

definition NewDecodeStruct :: "golib \<Rightarrow> arg \<Rightarrow> opt list \<Rightarrow> error + DecodeStruct" where
  "NewDecodeStruct = NewDecodeStruct_with isSupportedField"

definition NewDecodeStruct_v2 :: "golib \<Rightarrow> arg \<Rightarrow> opt list \<Rightarrow> error + DecodeStruct" where
  "NewDecodeStruct_v2 = NewDecodeStruct_with isSupportedField_v2"

subsubsection \<open>reset and ParseHeader\<close>

definition reset :: "DecodeStruct \<Rightarrow> DecodeStruct" where
  "reset r = r\<lparr>cols := map (\<lambda>col. col\<lparr>RecordIndex := - 1\<rparr>) (cols r), foundCols := []\<rparr>"

text \<open>
  The inner loop \<^verbatim>\<open>for _, f := range r.cols\<close> for the header cell \<open>col\<close> at position
  \<open>i\<close>: \<open>ps\<close> are the positions of \<open>cols\<close> still to visit, \<open>found\<close> the flag.
\<close>

fun ParseHeader_cols ::
  "string \<Rightarrow> int \<Rightarrow> nat list \<Rightarrow> DecodeStruct \<Rightarrow> bool \<Rightarrow> DecodeStruct \<times> bool" where
  "ParseHeader_cols col i [] r found = (r, found)"
| "ParseHeader_cols col i (p # ps) r found =
     (if Header (cols r ! p) = col
      then ParseHeader_cols col i ps
             (r\<lparr>cols := (cols r)[p := (cols r ! p)\<lparr>RecordIndex := i\<rparr>],
                foundCols := foundCols r @ [p]\<rparr>) True
      else ParseHeader_cols col i ps r found)"

text \<open>The outer loop \<^verbatim>\<open>for i, col := range header\<close>, from position \<open>i\<close> on.\<close>

fun ParseHeader_header ::
  "golib \<Rightarrow> string list \<Rightarrow> nat \<Rightarrow> DecodeStruct \<Rightarrow> error option \<times> DecodeStruct" where
  "ParseHeader_header lib [] i r = (None, r)"
| "ParseHeader_header lib (h # hs) i r =
     (let col = strings_ToLower lib (strings_TrimSpace lib h);
          (r', found) = ParseHeader_cols col (int i) [0..<length (cols r)] r False
      in if \<not> found
         then (Some (NewIncorrectFileErr (''Unexpected column '' @ strconv_Quote lib h)), r')
         else ParseHeader_header lib hs (Suc i) r')"

text \<open>The last loop: the first required column that is still unbound.\<close>

fun ParseHeader_required :: "golib \<Rightarrow> csvFieldInfo list \<Rightarrow> error option" where
  "ParseHeader_required lib [] = None"
| "ParseHeader_required lib (f # fs) =
     (if Required f \<and> RecordIndex f = - 1
      then Some (NewIncorrectFileErr
                  (''Mandatory column '' @ strconv_Quote lib (Header f) @ '' is missing''))
      else ParseHeader_required lib fs)"

definition ParseHeader ::
  "golib \<Rightarrow> DecodeStruct \<Rightarrow> string list \<Rightarrow> error option \<times> DecodeStruct" where
  "ParseHeader lib r header =
     (case ParseHeader_header lib header 0 (reset r) of
        (Some e, r') \<Rightarrow> (Some e, r')
      | (None, r') \<Rightarrow> (ParseHeader_required lib (cols r'), r'))"

subsubsection \<open>strconv.ParseBool, strconv.ParseUint and strconv.ParseInt\<close>

text \<open>
  The three parsers of \<^verbatim>\<open>strconv\<close> that \<^verbatim>\<open>setField\<close> calls are small enough to be
  written out. \<^verbatim>\<open>ParseUint\<close> and \<^verbatim>\<open>ParseInt\<close> are the calls the decoder makes: base 10
  and bit size 0, which is the size of \<^verbatim>\<open>int\<close>, here 64 bits.
\<close>

definition ParseBool :: "string \<Rightarrow> error + bool" where
  "ParseBool str =
     (if str \<in> set [''1'', ''t'', ''T'', ''TRUE'', ''true'', ''True''] then Inr True
      else if str \<in> set [''0'', ''f'', ''F'', ''FALSE'', ''false'', ''False''] then Inr False
      else Inl (NumError ''ParseBool'' str ErrSyntax))"

definition IntSize :: nat where
  "IntSize = 64"

definition maxUint64 :: nat where
  "maxUint64 = 2 ^ 64 - 1"

definition is_digit :: "char \<Rightarrow> bool" where
  "is_digit c = (of_char (CHR ''0'') \<le> (of_char c :: nat) \<and> (of_char c :: nat) \<le> of_char (CHR ''9''))"

definition digit_val :: "char \<Rightarrow> nat" where
  "digit_val c = of_char c - of_char (CHR ''0'')"

text \<open>
  The loop of \<^verbatim>\<open>ParseUint\<close> over the bytes, \<open>n\<close> the number read so far. In base 10 a
  letter is a digit of value 10 or more and so a syntax error like any other byte that
  is no decimal digit. \<open>n * 10\<close> does not overflow below the cutoff; \<open>n1\<close> is the sum as
  the 64-bit addition computes it.
\<close>

fun ParseUint_loop :: "nat \<Rightarrow> string \<Rightarrow> numerr + nat" where
  "ParseUint_loop n [] = Inr n"
| "ParseUint_loop n (c # cs) =
     (if \<not> is_digit c then Inl ErrSyntax
      else if n \<ge> maxUint64 div 10 + 1 then Inl ErrRange
      else
        let n' = n * 10;
            n1 = (n' + digit_val c) mod 2 ^ 64
        in if n1 < n' \<or> n1 > 2 ^ IntSize - 1 then Inl ErrRange
           else ParseUint_loop n1 cs)"

definition ParseUint :: "string \<Rightarrow> error + nat" where
  "ParseUint s =
     (if s = [] then Inl (NumError ''ParseUint'' s ErrSyntax)
      else case ParseUint_loop 0 s of
             Inl e \<Rightarrow> Inl (NumError ''ParseUint'' s e)
           | Inr n \<Rightarrow> Inr n)"

definition ParseInt :: "string \<Rightarrow> error + int" where
  "ParseInt s0 =
     (if s0 = [] then Inl (NumError ''ParseInt'' s0 ErrSyntax)
      else
        let neg = (hd s0 = CHR ''-'');
            s = (if hd s0 = CHR ''+'' \<or> hd s0 = CHR ''-'' then tl s0 else s0);
            un = (if s = [] then Inl ErrSyntax else ParseUint_loop 0 s)
        in if un = Inl ErrSyntax then Inl (NumError ''ParseInt'' s0 ErrSyntax)
           else
             let u = (case un of Inl _ \<Rightarrow> 2 ^ IntSize - 1 | Inr n \<Rightarrow> n);
                 cutoff = 2 ^ (IntSize - 1)
             in if \<not> neg \<and> u \<ge> cutoff then Inl (NumError ''ParseInt'' s0 ErrRange)
                else if neg \<and> u > cutoff then Inl (NumError ''ParseInt'' s0 ErrRange)
                else Inr (if neg then - int u else int u))"

text \<open>
  \<^verbatim>\<open>strconv.ParseFloat\<close> with bit size 64. The conversion of the digits is the library's
  (the parameter \<open>strconv_ParseFloat\<close>); that the empty string has no digits and is a
  syntax error is written out.
\<close>

definition ParseFloat :: "golib \<Rightarrow> string \<Rightarrow> error + 64 word" where
  "ParseFloat lib s =
     (if s = [] then Inl (NumError ''ParseFloat'' s ErrSyntax)
      else case strconv_ParseFloat lib s of
             Inl e \<Rightarrow> Inl (NumError ''ParseFloat'' s e)
           | Inr fv \<Rightarrow> Inr fv)"

subsubsection \<open>Values and setField\<close>

text \<open>
  The value of a struct field. Integers are kept as numbers in the range of the field's
  width; a pointer is \<^verbatim>\<open>nil\<close> or points to a cell of its own; \<open>VOpaque\<close> is the value
  of a type the decoder cannot write.
\<close>

datatype gval =
    VString string
  | VBool bool
  | VInt int
  | VUint nat
  | VFloat32 "32 word"
  | VFloat64 "64 word"
  | VTime time_Time
  | VPtr "gval option"
  | VOpaque

fun bits :: "kind \<Rightarrow> nat" where
  "bits k =
     (if k \<in> set [reflect_Int8, reflect_Uint8] then 8
      else if k \<in> set [reflect_Int16, reflect_Uint16] then 16
      else if k \<in> set [reflect_Int32, reflect_Uint32, reflect_Float32] then 32
      else if k \<in> set [reflect_Int, reflect_Uint, reflect_Uintptr] then IntSize
      else 64)"

text \<open>The zero value of a type, which \<^verbatim>\<open>reflect.New\<close> allocates.\<close>

fun zero :: "rtype \<Rightarrow> gval" where
  "zero (PtrTo t) = VPtr None"
| "zero (Ty k n) =
     (if k = reflect_String then VString []
      else if k = reflect_Bool then VBool False
      else if k \<in> set int_kinds then VInt 0
      else if k \<in> set (uint_kinds @ [reflect_Uintptr]) then VUint 0
      else if k = reflect_Float32 then VFloat32 0
      else if k = reflect_Float64 then VFloat64 0
      else if k = reflect_Struct \<and> n = ''time.Time'' then VTime (Time 0)
      else VOpaque)"

text \<open>
  \<^verbatim>\<open>Value.SetInt\<close>, \<^verbatim>\<open>SetUint\<close> and \<^verbatim>\<open>SetFloat\<close> store the 64-bit argument converted to
  the field's type: \<^verbatim>\<open>int8(x)\<close> and so on, which keeps the low bits.
\<close>

definition SetInt :: "kind \<Rightarrow> int \<Rightarrow> gval" where
  "SetInt k x = VInt (signed_take_bit (bits k - 1) x)"

definition SetUint :: "kind \<Rightarrow> nat \<Rightarrow> gval" where
  "SetUint k x = VUint (take_bit (bits k) x)"

definition SetFloat :: "golib \<Rightarrow> kind \<Rightarrow> 64 word \<Rightarrow> gval" where
  "SetFloat lib k x = (if k = reflect_Float32 then VFloat32 (float32_of lib x) else VFloat64 x)"

text \<open>
  \<^verbatim>\<open>setField(f, s)\<close>: \<open>t\<close> is the type of the field \<open>f\<close> and \<open>old\<close> its value; the result
  is the error and the value the field holds afterwards. A pointer field is set to a new
  zero cell before the text is parsed, so it holds that cell also when the parse fails.
\<close>

fun setField :: "golib \<Rightarrow> DecodeStruct \<Rightarrow> rtype \<Rightarrow> gval \<Rightarrow> string \<Rightarrow> error option \<times> gval" where
  "setField lib r (PtrTo t) old s =
     (case setField lib r t (zero t) s of (e, v) \<Rightarrow> (e, VPtr (Some v)))"
| "setField lib r (Ty k n) old s =
     (if k = reflect_String then (None, VString s)
      else if k = reflect_Bool then
        (case ParseBool s of Inl err \<Rightarrow> (Some err, old) | Inr b \<Rightarrow> (None, VBool b))
      else if k \<in> set int_kinds then
        (case ParseInt s of Inl err \<Rightarrow> (Some err, old) | Inr i \<Rightarrow> (None, SetInt k i))
      else if k \<in> set uint_kinds then
        (case ParseUint s of Inl err \<Rightarrow> (Some err, old) | Inr ui \<Rightarrow> (None, SetUint k ui))
      else if k \<in> set float_kinds then
        (case ParseFloat lib s of Inl err \<Rightarrow> (Some err, old) | Inr fv \<Rightarrow> (None, SetFloat lib k fv))
      else if k = reflect_Struct then
        (if n \<noteq> ''time.Time'' then (Some (ErrorString (unsupported_msg n)), old)
         else case time_Parse lib (timeFormat r) s of
                Inl m \<Rightarrow> (Some (ParseError m), old)
              | Inr t \<Rightarrow> (None, VTime t))
      else (Some (ErrorString (unsupported_msg n)), old))"

text \<open>
  The second revision unwraps one pointer, then switches on the dynamic type: a case
  of the type switch is taken by the predeclared type itself (\<open>Ty k n\<close> with \<open>n\<close> the
  name of \<open>k\<close>), and every other type goes to \<^verbatim>\<open>setCustomField\<close>, which switches on
  the kind. \<^verbatim>\<open>Value.String()\<close> of a value that is no string is its type in brackets.
  A field of an interface type is taken to hold \<^verbatim>\<open>nil\<close>, as in a new struct.
\<close>

fun kind_name :: "kind \<Rightarrow> string" where
  "kind_name k =
     (if k = reflect_Bool then ''bool'' else if k = reflect_String then ''string''
      else if k = reflect_Int then ''int'' else if k = reflect_Int8 then ''int8''
      else if k = reflect_Int16 then ''int16'' else if k = reflect_Int32 then ''int32''
      else if k = reflect_Int64 then ''int64'' else if k = reflect_Uint then ''uint''
      else if k = reflect_Uint8 then ''uint8'' else if k = reflect_Uint16 then ''uint16''
      else if k = reflect_Uint32 then ''uint32'' else if k = reflect_Uint64 then ''uint64''
      else if k = reflect_Float32 then ''float32'' else if k = reflect_Float64 then ''float64''
      else [])"

definition Value_String :: "rtype \<Rightarrow> string" where
  "Value_String t = ''<'' @ type_String t @ '' Value>''"

fun setCustomField :: "golib \<Rightarrow> rtype \<Rightarrow> gval \<Rightarrow> string \<Rightarrow> error option \<times> gval" where
  "setCustomField lib (PtrTo t) old s =
     (Some (ErrorString (unsupported_msg (Value_String (PtrTo t)))), old)"
| "setCustomField lib (Ty k n) old s =
     (if k = reflect_String then (None, VString s)
      else if k = reflect_Bool then
        (case ParseBool s of Inl err \<Rightarrow> (Some err, old) | Inr b \<Rightarrow> (None, VBool b))
      else if k \<in> set int_kinds then
        (case ParseInt s of Inl err \<Rightarrow> (Some err, old) | Inr i \<Rightarrow> (None, SetInt k i))
      else if k \<in> set uint_kinds then
        (case ParseUint s of Inl err \<Rightarrow> (Some err, old) | Inr ui \<Rightarrow> (None, SetUint k ui))
      else if k \<in> set float_kinds then
        (case ParseFloat lib s of Inl err \<Rightarrow> (Some err, old) | Inr fv \<Rightarrow> (None, SetFloat lib k fv))
      else (Some (ErrorString (unsupported_msg (Value_String (Ty k n)))), old))"

fun setField_switch_v2 ::
  "golib \<Rightarrow> DecodeStruct \<Rightarrow> rtype \<Rightarrow> gval \<Rightarrow> string \<Rightarrow> error option \<times> gval" where
  "setField_switch_v2 lib r (PtrTo t) old s = setCustomField lib (PtrTo t) old s"
| "setField_switch_v2 lib r (Ty k n) old s =
     (if k = reflect_String \<and> n = ''string'' then (None, VString s)
      else if k = reflect_Bool \<and> n = ''bool'' then
        (case ParseBool s of Inl err \<Rightarrow> (Some err, old) | Inr b \<Rightarrow> (None, VBool b))
      else if k \<in> set int_kinds \<and> n = kind_name k then
        (case ParseInt s of Inl err \<Rightarrow> (Some err, old) | Inr i \<Rightarrow> (None, SetInt k i))
      else if k \<in> set uint_kinds \<and> n = kind_name k then
        (case ParseUint s of Inl err \<Rightarrow> (Some err, old) | Inr ui \<Rightarrow> (None, SetUint k ui))
      else if k \<in> set float_kinds \<and> n = kind_name k then
        (case ParseFloat lib s of Inl err \<Rightarrow> (Some err, old) | Inr fv \<Rightarrow> (None, SetFloat lib k fv))
      else if k = reflect_Struct \<and> n = ''time.Time'' then
        (case time_Parse lib (timeFormat r) s of
           Inl m \<Rightarrow> (Some (ParseError m), old)
         | Inr t \<Rightarrow> (None, VTime t))
      else setCustomField lib (Ty k n) old s)"

fun setField_v2 :: "golib \<Rightarrow> DecodeStruct \<Rightarrow> rtype \<Rightarrow> gval \<Rightarrow> string \<Rightarrow> error option \<times> gval" where
  "setField_v2 lib r (PtrTo t) old s =
     (case setField_switch_v2 lib r t (zero t) s of (e, v) \<Rightarrow> (e, VPtr (Some v)))"
| "setField_v2 lib r (Ty k n) old s = setField_switch_v2 lib r (Ty k n) old s"

subsubsection \<open>unmarshal, UnmarshalCSV and GetStruct\<close>

text \<open>
  A struct value: its type and the values of its fields, one for each field of the type
  and in the same order. A field is settable (\<^verbatim>\<open>CanSet\<close>) when it is exported,
  since the struct is reached through a pointer.
\<close>

record struct_val =
  itype :: struct_type
  ivals :: "gval list"

definition New :: "struct_type \<Rightarrow> struct_val" where
  "New rt = \<lparr>itype = rt, ivals = map (\<lambda>f. zero (ftype f)) (tfields rt)\<rparr>"

text \<open>
  The body of the loop of \<^verbatim>\<open>unmarshal\<close> for one bound column \<open>c\<close>, parametrised by the
  revision's \<^verbatim>\<open>setField\<close> and by whether the revision skips the empty cell of an
  optional column (the first does, the second does not). The result \<open>(None, rv')\<close> is the
  end of the round, also by \<^verbatim>\<open>continue\<close>; an error ends the loop.
  \<^verbatim>\<open>record[c.RecordIndex]\<close> and \<^verbatim>\<open>rv.Field(c.StructFieldIndex)\<close> panic out of range.
\<close>

definition unmarshal_col ::
  "bool \<Rightarrow> (rtype \<Rightarrow> gval \<Rightarrow> string \<Rightarrow> error option \<times> gval) \<Rightarrow> csvFieldInfo \<Rightarrow>
   struct_val \<Rightarrow> string list \<Rightarrow> error option \<times> struct_val" where
  "unmarshal_col skip setf c rv record =
     (if RecordIndex c < 0 \<or> int (length record) \<le> RecordIndex c
      then (Some (Panic ''index out of range''), rv)
      else
        let s = record ! nat (RecordIndex c) in
        if skip \<and> \<not> Required c \<and> length s = 0 then (None, rv)
        else if length (tfields (itype rv)) \<le> StructFieldIndex c
                \<or> length (ivals rv) \<le> StructFieldIndex c
        then (Some (Panic ''reflect: Field index out of range''), rv)
        else
          let f = tfields (itype rv) ! StructFieldIndex c in
          if exported f then
            (case setf (ftype f) (ivals rv ! StructFieldIndex c) s of
               (err, v) \<Rightarrow> (err, rv\<lparr>ivals := (ivals rv)[StructFieldIndex c := v]\<rparr>))
          else (None, rv))"

text \<open>The loop \<^verbatim>\<open>for _, c := range r.foundCols\<close>; \<open>ps\<close> are the pointers still to visit.\<close>

fun unmarshal_cols ::
  "bool \<Rightarrow> (rtype \<Rightarrow> gval \<Rightarrow> string \<Rightarrow> error option \<times> gval) \<Rightarrow> csvFieldInfo list \<Rightarrow> nat list \<Rightarrow>
   struct_val \<Rightarrow> string list \<Rightarrow> error option \<times> struct_val" where
  "unmarshal_cols skip setf cs [] rv record = (None, rv)"
| "unmarshal_cols skip setf cs (p # ps) rv record =
     (case unmarshal_col skip setf (cs ! p) rv record of
        (Some err, rv') \<Rightarrow> (Some err, rv')
      | (None, rv') \<Rightarrow> unmarshal_cols skip setf cs ps rv' record)"

definition unmarshal ::
  "golib \<Rightarrow> DecodeStruct \<Rightarrow> struct_val \<Rightarrow> string list \<Rightarrow> error option \<times> struct_val" where
  "unmarshal lib r rv record =
     unmarshal_cols True (setField lib r) (cols r) (foundCols r) rv record"

definition unmarshal_v2 ::
  "golib \<Rightarrow> DecodeStruct \<Rightarrow> struct_val \<Rightarrow> string list \<Rightarrow> error option \<times> struct_val" where
  "unmarshal_v2 lib r rv record =
     unmarshal_cols False (setField_v2 lib r) (cols r) (foundCols r) rv record"

text \<open>
  The second argument of \<^verbatim>\<open>UnmarshalCSV\<close>: a pointer to a struct value, or something
  on which \<^verbatim>\<open>reflect.ValueOf(v).Elem()\<close> or \<^verbatim>\<open>Type()\<close> panics.
\<close>

datatype target = Pointer struct_val | NotPointer

definition row_shape_error :: error where
  "row_shape_error = ErrorString ''csv record must have same column with csv header''"

definition type_mismatch_error :: "struct_type \<Rightarrow> error" where
  "type_mismatch_error rt =
     ErrorString (''second argument of UnmarshalCSV function must be a pointer to '' @ tname rt)"

definition UnmarshalCSV_with ::
  "(DecodeStruct \<Rightarrow> struct_val \<Rightarrow> string list \<Rightarrow> error option \<times> struct_val) \<Rightarrow>
   DecodeStruct \<Rightarrow> string list \<Rightarrow> target \<Rightarrow> error option \<times> target" where
  "UnmarshalCSV_with unm r record v =
     (if length record \<noteq> length (foundCols r) then (Some row_shape_error, v)
      else case v of
             NotPointer \<Rightarrow> (Some (Panic ''reflect: call of reflect.Value.Elem''), v)
           | Pointer rv \<Rightarrow>
               if itype rv \<noteq> recordType r then (Some (type_mismatch_error (recordType r)), v)
               else (case unm r rv record of (e, rv') \<Rightarrow> (e, Pointer rv')))"

definition UnmarshalCSV ::
  "golib \<Rightarrow> DecodeStruct \<Rightarrow> string list \<Rightarrow> target \<Rightarrow> error option \<times> target" where
  "UnmarshalCSV lib = UnmarshalCSV_with (unmarshal lib)"

definition UnmarshalCSV_v2 ::
  "golib \<Rightarrow> DecodeStruct \<Rightarrow> string list \<Rightarrow> target \<Rightarrow> error option \<times> target" where
  "UnmarshalCSV_v2 lib = UnmarshalCSV_with (unmarshal_v2 lib)"

definition GetStruct :: "golib \<Rightarrow> DecodeStruct \<Rightarrow> string list \<Rightarrow> error + target" where
  "GetStruct lib r record =
     (case UnmarshalCSV lib r record (Pointer (New (recordType r))) of
        (Some err, v) \<Rightarrow> Inl err
      | (None, v) \<Rightarrow> Inr v)"

subsection \<open>Notions used in the statements\<close>

text \<open>The normalised form of a header cell, as \<^verbatim>\<open>ParseHeader\<close> computes it.\<close>

definition normalize_cell :: "golib \<Rightarrow> string \<Rightarrow> string" where
  "normalize_cell lib h = strings_ToLower lib (strings_TrimSpace lib h)"

text \<open>What the inner loop of \<^verbatim>\<open>ParseHeader\<close> does to the descriptors for one cell.\<close>

definition bind_col :: "string \<Rightarrow> int \<Rightarrow> csvFieldInfo list \<Rightarrow> csvFieldInfo list" where
  "bind_col col i cs = map (\<lambda>f. if Header f = col then f\<lparr>RecordIndex := i\<rparr> else f) cs"

text \<open>A type with every pointer taken off, and the kinds the first revision supports.\<close>

fun base_type :: "rtype \<Rightarrow> rtype" where
  "base_type (PtrTo t) = base_type t"
| "base_type (Ty k n) = Ty k n"

fun kind_of :: "rtype \<Rightarrow> kind" where
  "kind_of (Ty k n) = k"
| "kind_of (PtrTo t) = kind_of t"


text \<open>What a field of type \<open>t\<close> and value \<open>old\<close> holds after a \<^verbatim>\<open>setField\<close> that
  failed: the old value, or for a pointer the new cell with what is left in it.\<close>

fun left_on_failure :: "rtype \<Rightarrow> gval \<Rightarrow> gval" where
  "left_on_failure (Ty k n) old = old"
| "left_on_failure (PtrTo t) old = VPtr (Some (left_on_failure t (zero t)))"

text \<open>The errors \<^verbatim>\<open>setField\<close> returns: those of the parsers and the error for a type
  it does not support.\<close>

definition coercion_error :: "error \<Rightarrow> bool" where
  "coercion_error e =
     (case e of
        NumError f n k \<Rightarrow> True
      | ParseError m \<Rightarrow> True
      | ErrorString m \<Rightarrow> take (length (unsupported_msg [])) m = unsupported_msg []
      | _ \<Rightarrow> False)"

text \<open>Decimal numerals: the digits, their value, and the sign \<^verbatim>\<open>ParseInt\<close> takes off.\<close>

definition is_decimal :: "string \<Rightarrow> bool" where
  "is_decimal s = (s \<noteq> [] \<and> list_all is_digit s)"

definition decimal_value :: "string \<Rightarrow> nat" where
  "decimal_value s = foldl (\<lambda>n c. n * 10 + digit_val c) 0 s"

definition is_negative :: "string \<Rightarrow> bool" where
  "is_negative s = (s \<noteq> [] \<and> hd s = CHR ''-'')"

definition unsigned_part :: "string \<Rightarrow> string" where
  "unsigned_part s = (if s \<noteq> [] \<and> (hd s = CHR ''+'' \<or> hd s = CHR ''-'') then tl s else s)"

definition int_value :: "string \<Rightarrow> int" where
  "int_value s =
     (if is_negative s then - int (decimal_value (unsigned_part s))
      else int (decimal_value (unsigned_part s)))"

text \<open>The descriptors (as positions in \<open>cols\<close>) whose \<open>Header\<close> is \<open>col\<close>, in declaration
  order, and the effect of one round of the outer loop of \<^verbatim>\<open>ParseHeader\<close> that finds
  a match.\<close>

definition matching :: "csvFieldInfo list \<Rightarrow> string \<Rightarrow> nat list" where
  "matching cs col = filter (\<lambda>p. Header (cs ! p) = col) [0..<length cs]"

definition ParseHeader_cell :: "string \<Rightarrow> nat \<Rightarrow> DecodeStruct \<Rightarrow> DecodeStruct" where
  "ParseHeader_cell col i r =
     r\<lparr>cols := bind_col col (int i) (cols r), foundCols := foundCols r @ matching (cols r) col\<rparr>"

subsection \<open>Concrete inputs\<close>

text \<open>
  An instance of the library for ASCII text, on which the model runs on concrete inputs:
  lower-casing of the letters A to Z (which sets the bit of value 32), trimming of ASCII
  white space, splitting at a separator of at least one byte (and into single bytes at
  the empty separator), and quoting of a text that needs no escape. Its \<^verbatim>\<open>ParseFloat\<close> and \<^verbatim>\<open>time.Parse\<close>
  reject every text; the examples below give them only texts that Go rejects as well.
\<close>

definition ascii_lower :: "char \<Rightarrow> char" where
  "ascii_lower c =
     (if of_char (CHR ''A'') \<le> (of_char c :: nat) \<and> (of_char c :: nat) \<le> of_char (CHR ''Z'')
      then (case c of Char b0 b1 b2 b3 b4 b5 b6 b7 \<Rightarrow> Char b0 b1 b2 b3 b4 True b6 b7)
      else c)"

definition ascii_ToLower :: "string \<Rightarrow> string" where
  "ascii_ToLower s = map ascii_lower s"

definition ascii_space :: "char \<Rightarrow> bool" where
  "ascii_space c = ((of_char c :: nat) \<in> set [9, 10, 11, 12, 13, 32])"

definition ascii_TrimSpace :: "string \<Rightarrow> string" where
  "ascii_TrimSpace s = rev (dropWhile ascii_space (rev (dropWhile ascii_space s)))"

fun ascii_Split_from :: "string \<Rightarrow> string \<Rightarrow> string \<Rightarrow> string list" where
  "ascii_Split_from sep acc [] = [rev acc]"
| "ascii_Split_from sep acc (c # cs) =
     (if sep \<noteq> [] \<and> take (length sep) (c # cs) = sep
      then rev acc # ascii_Split_from sep [] (drop (length sep - 1) cs)
      else ascii_Split_from sep (c # acc) cs)"

definition ascii_Split :: "string \<Rightarrow> string \<Rightarrow> string list" where
  "ascii_Split s sep = (if sep = [] then map (\<lambda>c. [c]) s else ascii_Split_from sep [] s)"

definition ascii_Quote :: "string \<Rightarrow> string" where
  "ascii_Quote s = [CHR 0x22] @ s @ [CHR 0x22]"

definition ascii_lib :: golib where
  "ascii_lib =
     \<lparr>strings_ToLower = ascii_ToLower, strings_TrimSpace = ascii_TrimSpace,
      strings_Split = ascii_Split, strconv_Quote = ascii_Quote,
      strconv_ParseFloat = (\<lambda>s. Inl ErrSyntax), float32_of = (\<lambda>x. 0),
      time_Parse = (\<lambda>layout s. Inl ''cannot parse'')\<rparr>"

text \<open>
  The struct of the specification's scenarios:
  \<^verbatim>\<open>type Person struct { Name string `csv:"Name,required"`; Age int `csv:"Age,required"`; Score float64 }\<close>
  and the decoder \<^verbatim>\<open>NewDecodeStruct(&Person{})\<close> builds for it.
\<close>

definition person_type :: struct_type where
  "person_type =
     \<lparr>tname = ''main.Person'',
      tfields =
        [\<lparr>fname = ''Name'', ftype = Ty reflect_String ''string'',
          ftag = [(''csv'', ''Name,required'')], exported = True\<rparr>,
         \<lparr>fname = ''Age'', ftype = Ty reflect_Int ''int'',
          ftag = [(''csv'', ''Age,required'')], exported = True\<rparr>,
         \<lparr>fname = ''Score'', ftype = Ty reflect_Float64 ''float64'',
          ftag = [], exported = True\<rparr>]\<rparr>"

definition decoder_for :: "struct_type \<Rightarrow> csvFieldInfo list \<Rightarrow> DecodeStruct" where
  "decoder_for rt cs =
     \<lparr>cols = cs, foundCols = [], recordType = rt, timeFormat = time_RFC3339,
      csvTagName = ''csv'', csvTagFieldSep = '',''\<rparr>"

definition person_reader :: DecodeStruct where
  "person_reader = decoder_for person_type
     [\<lparr>Header = ''name'', Required = True, RecordIndex = - 1, StructFieldIndex = 0\<rparr>,
      \<lparr>Header = ''age'', Required = True, RecordIndex = - 1, StructFieldIndex = 1\<rparr>,
      \<lparr>Header = ''score'', Required = False, RecordIndex = - 1, StructFieldIndex = 2\<rparr>]"

text \<open>\<^verbatim>\<open>type Gauge struct { Level int8 }\<close>\<close>

definition gauge_type :: struct_type where
  "gauge_type =
     \<lparr>tname = ''main.Gauge'',
      tfields = [\<lparr>fname = ''Level'', ftype = Ty reflect_Int8 ''int8'', ftag = [], exported = True\<rparr>]\<rparr>"

definition gauge_reader :: DecodeStruct where
  "gauge_reader = decoder_for gauge_type
     [\<lparr>Header = ''level'', Required = False, RecordIndex = - 1, StructFieldIndex = 0\<rparr>]"

text \<open>\<^verbatim>\<open>type Award struct { Name string; Bonus *int }\<close>\<close>

definition award_type :: struct_type where
  "award_type =
     \<lparr>tname = ''main.Award'',
      tfields =
        [\<lparr>fname = ''Name'', ftype = Ty reflect_String ''string'', ftag = [], exported = True\<rparr>,
         \<lparr>fname = ''Bonus'', ftype = PtrTo (Ty reflect_Int ''int''), ftag = [], exported = True\<rparr>]\<rparr>"

definition award_reader :: DecodeStruct where
  "award_reader = decoder_for award_type
     [\<lparr>Header = ''name'', Required = False, RecordIndex = - 1, StructFieldIndex = 0\<rparr>,
      \<lparr>Header = ''bonus'', Required = False, RecordIndex = - 1, StructFieldIndex = 1\<rparr>]"

text \<open>\<^verbatim>\<open>type Hidden struct { Name string; age int `csv:"age,required"` }\<close>, whose second
  field is not exported.\<close>

definition hidden_type :: struct_type where
  "hidden_type =
     \<lparr>tname = ''main.Hidden'',
      tfields =
        [\<lparr>fname = ''Name'', ftype = Ty reflect_String ''string'', ftag = [], exported = True\<rparr>,
         \<lparr>fname = ''age'', ftype = Ty reflect_Int ''int'',
          ftag = [(''csv'', ''age,required'')], exported = False\<rparr>]\<rparr>"

definition hidden_reader :: DecodeStruct where
  "hidden_reader = decoder_for hidden_type
     [\<lparr>Header = ''name'', Required = False, RecordIndex = - 1, StructFieldIndex = 0\<rparr>,
      \<lparr>Header = ''age'', Required = True, RecordIndex = - 1, StructFieldIndex = 1\<rparr>]"

text \<open>\<^verbatim>\<open>type Twin struct { A int `csv:"x"`; B int `csv:"x"` }\<close>, two fields for one column.\<close>

definition twin_type :: struct_type where
  "twin_type =
     \<lparr>tname = ''main.Twin'',
      tfields =
        [\<lparr>fname = ''A'', ftype = Ty reflect_Int ''int'', ftag = [(''csv'', ''x'')], exported = True\<rparr>,
         \<lparr>fname = ''B'', ftype = Ty reflect_Int ''int'', ftag = [(''csv'', ''x'')], exported = True\<rparr>]\<rparr>"

definition twin_reader :: DecodeStruct where
  "twin_reader = decoder_for twin_type
     [\<lparr>Header = ''x'', Required = False, RecordIndex = - 1, StructFieldIndex = 0\<rparr>,
      \<lparr>Header = ''x'', Required = False, RecordIndex = - 1, StructFieldIndex = 1\<rparr>]"

text \<open>\<^verbatim>\<open>type Deep struct { PP **int }\<close>\<close>

definition deep_type :: struct_type where
  "deep_type =
     \<lparr>tname = ''main.Deep'',
      tfields = [\<lparr>fname = ''PP'', ftype = PtrTo (PtrTo (Ty reflect_Int ''int'')), ftag = [],
                 exported = True\<rparr>]\<rparr>"

definition deep_reader :: DecodeStruct where
  "deep_reader = decoder_for deep_type
     [\<lparr>Header = ''pp'', Required = False, RecordIndex = - 1, StructFieldIndex = 0\<rparr>]"


definition plain_type :: struct_type where
  "plain_type =
     \<lparr>tname = ''main.Plain'',
      tfields =
        [\<lparr>fname = ''Name'', ftype = Ty reflect_String ''string'', ftag = [], exported = True\<rparr>,
         \<lparr>fname = ''Note'', ftype = Ty reflect_String ''string'',
          ftag = [(''csv'', ''-'')], exported = True\<rparr>,
         \<lparr>fname = ''Age'', ftype = Ty reflect_Int ''int'', ftag = [], exported = True\<rparr>]\<rparr>"

definition plain_reader :: DecodeStruct where
  "plain_reader = decoder_for plain_type
     [\<lparr>Header = ''name'', Required = False, RecordIndex = - 1, StructFieldIndex = 0\<rparr>,
      \<lparr>Header = ''age'', Required = False, RecordIndex = - 1, StructFieldIndex = 2\<rparr>]"

text \<open>The decoders above after \<^verbatim>\<open>ParseHeader\<close> has bound a header.\<close>

definition person_bound :: DecodeStruct where
  "person_bound = snd (ParseHeader ascii_lib person_reader [''Name'', ''Age'', ''Score''])"

definition gauge_bound :: DecodeStruct where
  "gauge_bound = snd (ParseHeader ascii_lib gauge_reader [''Level''])"

definition award_bound :: DecodeStruct where
  "award_bound = snd (ParseHeader ascii_lib award_reader [''Name'', ''Bonus''])"

definition hidden_bound :: DecodeStruct where
  "hidden_bound = snd (ParseHeader ascii_lib hidden_reader [''age''])"

definition twin_bound :: DecodeStruct where
  "twin_bound = snd (ParseHeader ascii_lib twin_reader [''x''])"

section \<open>Header reconciliation\<close>

subsection \<open>The loops of ParseHeader in closed form\<close>

text \<open>
  The inner loop binds every descriptor named like the cell and appends them to
  \<open>foundCols\<close> in declaration order; it changes no \<open>Header\<close>, so which cells are known
  does not change while a header is scanned.
\<close>

lemma ParseHeader_cols_length:
  "length (cols (fst (ParseHeader_cols col i ps r found))) = length (cols r)"
  by (induction ps arbitrary: r found) auto

lemma ParseHeader_cols_eq:
  "\<forall>p\<in>set ps. p < length (cols r) \<Longrightarrow>
   ParseHeader_cols col i ps r found =
     (r\<lparr>cols := map (\<lambda>q. if q \<in> set ps \<and> Header (cols r ! q) = col
                           then (cols r ! q)\<lparr>RecordIndex := i\<rparr> else cols r ! q)
                    [0..<length (cols r)],
        foundCols := foundCols r @ filter (\<lambda>p. Header (cols r ! p) = col) ps\<rparr>,
      found \<or> (\<exists>p\<in>set ps. Header (cols r ! p) = col))"
proof (induction ps arbitrary: r found)
  case Nil
  then show ?case by (simp add: map_nth)
next
  case (Cons p ps)
  show ?case
  proof (cases "Header (cols r ! p) = col")
    case False
    with Cons show ?thesis by (auto intro!: nth_equalityI)
  next
    case True
    let ?r1 = "r\<lparr>cols := (cols r)[p := (cols r ! p)\<lparr>RecordIndex := i\<rparr>], foundCols := foundCols r @ [p]\<rparr>"
    have H: "\<And>q. q < length (cols r) \<Longrightarrow> Header (cols ?r1 ! q) = Header (cols r ! q)"
      using Cons.prems by (simp add: nth_list_update)
    have "\<forall>p\<in>set ps. p < length (cols ?r1)" using Cons.prems by simp
    from Cons.IH[OF this, of True] True Cons.prems H show ?thesis
      by (auto intro!: nth_equalityI simp: nth_list_update cong: filter_cong)
  qed
qed

lemma ParseHeader_cols_all:
  "ParseHeader_cols col i [0..<length (cols r)] r found =
     (r\<lparr>cols := bind_col col i (cols r),
        foundCols := foundCols r @ filter (\<lambda>p. Header (cols r ! p) = col) [0..<length (cols r)]\<rparr>,
      found \<or> col \<in> Header ` set (cols r))"
proof -
  have 1: "map (\<lambda>q. if q \<in> set [0..<length (cols r)] \<and> Header (cols r ! q) = col
                           then (cols r ! q)\<lparr>RecordIndex := i\<rparr> else cols r ! q)
                    [0..<length (cols r)] = bind_col col i (cols r)"
    by (auto intro!: nth_equalityI simp: bind_col_def)
  have 2: "(\<exists>p\<in>set [0..<length (cols r)]. Header (cols r ! p) = col) \<longleftrightarrow> col \<in> Header ` set (cols r)"
    by (force simp: in_set_conv_nth image_iff)
  show ?thesis
    by (subst ParseHeader_cols_eq) (simp_all only: 1 2, simp)
qed

lemma ParseHeader_cols_cell:
  "ParseHeader_cols col (int i) [0..<length (cols r)] r False =
     (ParseHeader_cell col i r, col \<in> Header ` set (cols r))"
  by (simp add: ParseHeader_cols_all ParseHeader_cell_def matching_def)

lemma ParseHeader_header_Cons:
  "ParseHeader_header lib (h # hs) i r =
     (if normalize_cell lib h \<notin> Header ` set (cols r)
      then (Some (IncorrectFileErr (''Unexpected column '' @ strconv_Quote lib h)),
            ParseHeader_cell (normalize_cell lib h) i r)
      else ParseHeader_header lib hs (Suc i) (ParseHeader_cell (normalize_cell lib h) i r))"
  by (simp add: ParseHeader_cols_cell normalize_cell_def NewIncorrectFileErr_def Let_def)

lemma map_Header_bind_col [simp]: "map Header (bind_col col i cs) = map Header cs"
  by (simp add: bind_col_def comp_def if_distrib cong: if_cong)

lemma length_bind_col [simp]: "length (bind_col col i cs) = length cs"
  by (simp add: bind_col_def)

lemma Headers_bind_col [simp]: "Header ` set (bind_col col i cs) = Header ` set cs"
proof -
  have "set (map Header (bind_col col i cs)) = set (map Header cs)" by simp
  then show ?thesis by (simp only: set_map)
qed

lemma Headers_cell [simp]: "Header ` set (cols (ParseHeader_cell col i r)) = Header ` set (cols r)"
proof -
  have "set (map Header (cols (ParseHeader_cell col i r))) = set (map Header (cols r))"
    by (simp add: ParseHeader_cell_def)
  then show ?thesis by (simp only: set_map)
qed

lemma bind_col_unknown: "col \<notin> Header ` set cs \<Longrightarrow> bind_col col i cs = cs"
  by (induction cs) (auto simp: bind_col_def)

lemma matching_unknown: "col \<notin> Header ` set cs \<Longrightarrow> matching cs col = []"
  by (auto simp: matching_def filter_empty_conv)

lemma ParseHeader_cell_unknown:
  "col \<notin> Header ` set (cols r) \<Longrightarrow> ParseHeader_cell col i r = r"
  by (simp add: ParseHeader_cell_def bind_col_unknown matching_unknown)

lemma reset_cell [simp]: "reset (ParseHeader_cell col i r) = reset r"
  by (simp add: reset_def ParseHeader_cell_def bind_col_def comp_def if_distrib cong: if_cong)

lemma reset_header [simp]: "reset (snd (ParseHeader_header lib hs i r)) = reset r"
  by (induction hs arbitrary: i r) (simp_all add: ParseHeader_header_Cons del: ParseHeader_header.simps(2))

lemma Headers_header [simp]:
  "Header ` set (cols (snd (ParseHeader_header lib hs i r))) = Header ` set (cols r)"
  by (induction hs arbitrary: i r) (simp_all add: ParseHeader_header_Cons del: ParseHeader_header.simps(2))

lemma ParseHeader_header_known:
  "\<forall>h\<in>set hs. normalize_cell lib h \<in> Header ` set (cols r) \<Longrightarrow>
   fst (ParseHeader_header lib hs i r) = None"
  by (induction hs arbitrary: i r) (simp_all add: ParseHeader_header_Cons del: ParseHeader_header.simps(2))

lemma ParseHeader_header_append:
  "\<forall>h\<in>set pre. normalize_cell lib h \<in> Header ` set (cols r) \<Longrightarrow>
   ParseHeader_header lib (pre @ rest) i r =
     ParseHeader_header lib rest (i + length pre) (snd (ParseHeader_header lib pre i r))"
  by (induction pre arbitrary: i r) (simp_all add: ParseHeader_header_Cons del: ParseHeader_header.simps(2))

lemma reset_reset [simp]: "reset (reset r) = reset r"
  by (simp add: reset_def comp_def)

lemma Headers_reset [simp]: "Header ` set (cols (reset r)) = Header ` set (cols r)"
  by (force simp: reset_def image_iff)

lemma map_Header_reset [simp]: "map Header (cols (reset r)) = map Header (cols r)"
  by (simp add: reset_def comp_def)

lemma snd_ParseHeader: "snd (ParseHeader lib r header) = snd (ParseHeader_header lib header 0 (reset r))"
  by (simp add: ParseHeader_def split: prod.splits option.splits)

lemma ParseHeader_unexpected_first:
  assumes "j < length header"
    and "normalize_cell lib (header ! j) \<notin> Header ` set (cols r)"
    and "\<forall>k<j. normalize_cell lib (header ! k) \<in> Header ` set (cols r)"
  shows "ParseHeader lib r header =
           (Some (IncorrectFileErr (''Unexpected column '' @ strconv_Quote lib (header ! j))),
            snd (ParseHeader lib r (take j header)))"
proof -
  let ?r0 = "reset r"
  have split: "header = take j header @ header ! j # drop (Suc j) header"
    using assms(1) by (simp add: id_take_nth_drop)
  have pre: "\<forall>h\<in>set (take j header). normalize_cell lib h \<in> Header ` set (cols ?r0)"
    using assms(1,3) by (auto simp: in_set_conv_nth)
  let ?r1 = "snd (ParseHeader_header lib (take j header) 0 ?r0)"
  have "ParseHeader_header lib header 0 ?r0 =
          ParseHeader_header lib (header ! j # drop (Suc j) header) (0 + length (take j header)) ?r1"
    using ParseHeader_header_append[OF pre, of "header ! j # drop (Suc j) header" 0] split by simp
  also have "\<dots> = (Some (IncorrectFileErr (''Unexpected column '' @ strconv_Quote lib (header ! j))), ?r1)"
    using assms(2) by (simp add: ParseHeader_header_Cons ParseHeader_cell_unknown del: ParseHeader_header.simps(2))
  finally show ?thesis
    by (simp add: ParseHeader_def[of lib r header] snd_ParseHeader)
qed

lemma ParseHeader_reset_cong:
  "reset r1 = reset r2 \<Longrightarrow> ParseHeader lib r1 h = ParseHeader lib r2 h"
  by (simp add: ParseHeader_def)

lemma matching_bind_col [simp]: "matching (bind_col c i cs) col = matching cs col"
  by (auto simp: matching_def bind_col_def intro!: filter_cong)

lemma cell_simps [simp]:
  "cols (ParseHeader_cell col i r) = bind_col col (int i) (cols r)"
  "foundCols (ParseHeader_cell col i r) = foundCols r @ matching (cols r) col"
  "recordType (ParseHeader_cell col i r) = recordType r"
  "timeFormat (ParseHeader_cell col i r) = timeFormat r"
  "csvTagName (ParseHeader_cell col i r) = csvTagName r"
  "csvTagFieldSep (ParseHeader_cell col i r) = csvTagFieldSep r"
  by (simp_all add: ParseHeader_cell_def)

lemma nth_bind_col:
  "p < length cs \<Longrightarrow>
   bind_col col i cs ! p = (if Header (cs ! p) = col then (cs ! p)\<lparr>RecordIndex := i\<rparr> else cs ! p)"
  by (simp add: bind_col_def)

lemma ParseHeader_header_length [simp]:
  "length (cols (snd (ParseHeader_header lib hs i r))) = length (cols r)"
  by (induction hs arbitrary: i r) (simp_all add: ParseHeader_header_Cons del: ParseHeader_header.simps(2))

lemma ParseHeader_header_config [simp]:
  "recordType (snd (ParseHeader_header lib hs i r)) = recordType r"
  "timeFormat (snd (ParseHeader_header lib hs i r)) = timeFormat r"
  "csvTagName (snd (ParseHeader_header lib hs i r)) = csvTagName r"
  "csvTagFieldSep (snd (ParseHeader_header lib hs i r)) = csvTagFieldSep r"
  by (induction hs arbitrary: i r; simp add: ParseHeader_header_Cons del: ParseHeader_header.simps(2))+

lemma matching_cols_header:
  "map Header cs' = map Header cs \<Longrightarrow> matching cs' col = matching cs col"
proof -
  assume a: "map Header cs' = map Header cs"
  then have l: "length cs' = length cs" by (metis length_map)
  have "\<And>p. p < length cs \<Longrightarrow> Header (cs' ! p) = Header (cs ! p)"
    using a l by (metis nth_map)
  then show ?thesis using l by (auto simp: matching_def intro!: filter_cong)
qed

lemma ParseHeader_header_foundCols:
  "\<forall>h\<in>set hs. normalize_cell lib h \<in> Header ` set (cols r) \<Longrightarrow>
   foundCols (snd (ParseHeader_header lib hs i r)) =
     foundCols r @ concat (map (\<lambda>h. matching (cols r) (normalize_cell lib h)) hs)"
  by (induction hs arbitrary: i r) (simp_all add: ParseHeader_header_Cons del: ParseHeader_header.simps(2))

lemma ParseHeader_header_nth:
  "\<forall>h\<in>set hs. normalize_cell lib h \<in> Header ` set (cols r) \<Longrightarrow> p < length (cols r) \<Longrightarrow>
   Header (cols (snd (ParseHeader_header lib hs i r)) ! p) = Header (cols r ! p) \<and>
   Required (cols (snd (ParseHeader_header lib hs i r)) ! p) = Required (cols r ! p) \<and>
   StructFieldIndex (cols (snd (ParseHeader_header lib hs i r)) ! p) = StructFieldIndex (cols r ! p) \<and>
   (if Header (cols r ! p) \<in> normalize_cell lib ` set hs
    then int i \<le> RecordIndex (cols (snd (ParseHeader_header lib hs i r)) ! p) \<and>
         RecordIndex (cols (snd (ParseHeader_header lib hs i r)) ! p) < int (i + length hs) \<and>
         normalize_cell lib (hs ! (nat (RecordIndex (cols (snd (ParseHeader_header lib hs i r)) ! p)) - i))
           = Header (cols r ! p)
    else RecordIndex (cols (snd (ParseHeader_header lib hs i r)) ! p) = RecordIndex (cols r ! p))"
proof (induction hs arbitrary: i r)
  case Nil
  then show ?case by simp
next
  case (Cons h hs)
  let ?col = "normalize_cell lib h"
  let ?r1 = "ParseHeader_cell ?col i r"
  let ?f' = "cols (snd (ParseHeader_header lib hs (Suc i) ?r1)) ! p"
  have known: "\<forall>h\<in>set hs. normalize_cell lib h \<in> Header ` set (cols ?r1)"
    using Cons.prems(1) by simp
  have p1: "p < length (cols ?r1)" using Cons.prems(2) by simp
  note IH = Cons.IH[OF known p1, of "Suc i"]
  have step: "snd (ParseHeader_header lib (h # hs) i r) = snd (ParseHeader_header lib hs (Suc i) ?r1)"
    using Cons.prems(1) by (simp add: ParseHeader_header_Cons del: ParseHeader_header.simps(2))
  have f1: "cols ?r1 ! p = (if Header (cols r ! p) = ?col then (cols r ! p)\<lparr>RecordIndex := int i\<rparr> else cols r ! p)"
    using Cons.prems(2) by (simp add: nth_bind_col)
  show ?case
  proof (cases "Header (cols r ! p) \<in> normalize_cell lib ` set hs")
    case True
    with IH f1 have a: "int (Suc i) \<le> RecordIndex ?f'" "RecordIndex ?f' < int (Suc i + length hs)"
      "normalize_cell lib (hs ! (nat (RecordIndex ?f') - Suc i)) = Header (cols r ! p)"
      and b: "Header ?f' = Header (cols r ! p)" "Required ?f' = Required (cols r ! p)"
        "StructFieldIndex ?f' = StructFieldIndex (cols r ! p)"
      by (auto split: if_splits)
    from a(1) have "nat (RecordIndex ?f') - i = Suc (nat (RecordIndex ?f') - Suc i)" by linarith
    with a b True show ?thesis unfolding step by simp
  next
    case False
    with IH f1 have a: "RecordIndex ?f' = RecordIndex (cols ?r1 ! p)"
      and b: "Header ?f' = Header (cols r ! p)" "Required ?f' = Required (cols r ! p)"
        "StructFieldIndex ?f' = StructFieldIndex (cols r ! p)"
      by (auto split: if_splits)
    show ?thesis unfolding step using a b f1 False by auto
  qed
qed

lemma ParseHeader_required_find:
  "length cs' = length cs \<Longrightarrow>
   \<forall>p<length cs. Header (cs' ! p) = Header (cs ! p) \<and> Required (cs' ! p) = Required (cs ! p) \<and>
      (RecordIndex (cs' ! p) = - 1 \<longleftrightarrow> Header (cs ! p) \<notin> N) \<Longrightarrow>
   ParseHeader_required lib cs' =
     (case find (\<lambda>f. Required f \<and> Header f \<notin> N) cs of
        None \<Rightarrow> None
      | Some f \<Rightarrow> Some (IncorrectFileErr
                        (''Mandatory column '' @ strconv_Quote lib (Header f) @ '' is missing'')))"
proof (induction cs' cs rule: list_induct2)
  case Nil
  then show ?case by simp
next
  case (Cons f' cs' f cs)
  from Cons.prems have hd: "Header f' = Header f" "Required f' = Required f"
     "RecordIndex f' = - 1 \<longleftrightarrow> Header f \<notin> N" by auto
  from Cons.prems have tl: "\<forall>p<length cs. Header (cs' ! p) = Header (cs ! p) \<and> Required (cs' ! p) = Required (cs ! p) \<and>
      (RecordIndex (cs' ! p) = - 1 \<longleftrightarrow> Header (cs ! p) \<notin> N)" by auto
  from Cons.IH[OF tl] hd show ?case by (simp add: NewIncorrectFileErr_def)
qed

lemma reset_simps [simp]:
  "length (cols (reset r)) = length (cols r)"
  "foundCols (reset r) = []"
  "recordType (reset r) = recordType r"
  "timeFormat (reset r) = timeFormat r"
  "p < length (cols r) \<Longrightarrow> cols (reset r) ! p = (cols r ! p)\<lparr>RecordIndex := - 1\<rparr>"
  by (simp_all add: reset_def)

lemma ParseHeader_known:
  assumes "\<forall>h\<in>set header. normalize_cell lib h \<in> Header ` set (cols r)"
  shows "ParseHeader lib r header =
           (ParseHeader_required lib (cols (snd (ParseHeader_header lib header 0 (reset r)))),
            snd (ParseHeader_header lib header 0 (reset r)))"
proof -
  have "fst (ParseHeader_header lib header 0 (reset r)) = None"
    using assms by (intro ParseHeader_header_known) simp
  then show ?thesis
    by (cases "ParseHeader_header lib header 0 (reset r)") (simp add: ParseHeader_def)
qed

lemma ParseHeader_header_None_known:
  "fst (ParseHeader_header lib hs i r) = None \<Longrightarrow>
   \<forall>h\<in>set hs. normalize_cell lib h \<in> Header ` set (cols r)"
proof (induction hs arbitrary: i r)
  case Nil
  then show ?case by simp
next
  case (Cons h hs)
  from Cons.prems have k: "normalize_cell lib h \<in> Header ` set (cols r)"
    by (auto simp: ParseHeader_header_Cons simp del: ParseHeader_header.simps(2) split: if_splits)
  with Cons.prems have "fst (ParseHeader_header lib hs (Suc i) (ParseHeader_cell (normalize_cell lib h) i r)) = None"
    by (simp add: ParseHeader_header_Cons del: ParseHeader_header.simps(2))
  from Cons.IH[OF this] k show ?case by simp
qed

lemma ParseHeader_None_known:
  assumes "ParseHeader lib r0 header = (None, r)"
  shows "\<forall>h\<in>set header. normalize_cell lib h \<in> Header ` set (cols r0)"
proof -
  from assms have "fst (ParseHeader_header lib header 0 (reset r0)) = None"
    by (auto simp: ParseHeader_def split: prod.splits option.splits)
  from ParseHeader_header_None_known[OF this] show ?thesis by simp
qed

lemma ParseHeader_foundCols:
  assumes "ParseHeader lib r0 header = (None, r)"
  shows "foundCols r = concat (map (\<lambda>h. matching (cols r0) (normalize_cell lib h)) header)"
proof -
  have k: "\<forall>h\<in>set header. normalize_cell lib h \<in> Header ` set (cols (reset r0))"
    using ParseHeader_None_known[OF assms] by simp
  have "r = snd (ParseHeader_header lib header 0 (reset r0))"
    using assms snd_ParseHeader[of lib r0 header] by simp
  then show ?thesis
    using ParseHeader_header_foundCols[OF k, of 0]
    by (simp add: matching_cols_header[of "cols (reset r0)" "cols r0"])
qed

subsection \<open>The concrete decoders\<close>

text \<open>The simplification rules that run the model on the concrete inputs, and the results
  of building and binding the concrete decoders.\<close>

lemmas example_defs =
  person_reader_def decoder_for_def ascii_lib_def normalize_cell_def ascii_ToLower_def
  ascii_TrimSpace_def ascii_space_def ascii_Quote_def ascii_lower_def

lemmas header_eval =
  ParseHeader_def ParseHeader_header_Cons reset_def bind_col_def matching_def ParseHeader_cell_def
  example_defs

lemmas decode_eval =
  UnmarshalCSV_def UnmarshalCSV_with_def unmarshal_def unmarshal_col_def New_def
  ParseInt_def ParseUint_def ParseBool_def ParseFloat_def SetInt_def SetUint_def is_digit_def digit_val_def
  maxUint64_def IntSize_def int_kinds_def uint_kinds_def float_kinds_def

lemmas row_eval = decode_eval decoder_for_def ascii_lib_def

lemmas build_eval =
  NewDecodeStruct_def NewDecodeStruct_with_def new_reader_def decoder_for_def ascii_lib_def
  Tag_Get_def ascii_Split_def ascii_ToLower_def ascii_lower_def defaultCSVTagName_def
  defaultCSVTagFieldSep_def int_kinds_def uint_kinds_def float_kinds_def unsupported_msg_def Let_def

lemma person_known:
  "normalize_cell ascii_lib ''Name'' \<in> Header ` set (cols person_reader)"
  "normalize_cell ascii_lib ''Age'' \<in> Header ` set (cols person_reader)"
  "normalize_cell ascii_lib ''Extra'' \<notin> Header ` set (cols person_reader)"
  by (simp_all add: example_defs)

lemma readers_built:
  "NewDecodeStruct ascii_lib (PtrToStruct person_type) [] = Inr person_reader"
  "NewDecodeStruct ascii_lib (PtrToStruct gauge_type) [] = Inr gauge_reader"
  "NewDecodeStruct ascii_lib (PtrToStruct award_type) [] = Inr award_reader"
  "NewDecodeStruct ascii_lib (PtrToStruct hidden_type) [] = Inr hidden_reader"
  "NewDecodeStruct ascii_lib (PtrToStruct twin_type) [] = Inr twin_reader"
  "NewDecodeStruct ascii_lib (PtrToStruct deep_type) [] = Inr deep_reader"
  "NewDecodeStruct ascii_lib (PtrToStruct plain_type) [] = Inr plain_reader"
  by (simp_all add: build_eval person_type_def person_reader_def gauge_type_def gauge_reader_def
      award_type_def award_reader_def hidden_type_def hidden_reader_def twin_type_def twin_reader_def
      deep_type_def deep_reader_def plain_type_def plain_reader_def)

lemma person_bound_eq:
  "ParseHeader ascii_lib person_reader [''Name'', ''Age'', ''Score''] = (None, person_bound)"
  "person_bound = decoder_for person_type
     [\<lparr>Header = ''name'', Required = True, RecordIndex = 0, StructFieldIndex = 0\<rparr>,
      \<lparr>Header = ''age'', Required = True, RecordIndex = 1, StructFieldIndex = 1\<rparr>,
      \<lparr>Header = ''score'', Required = False, RecordIndex = 2, StructFieldIndex = 2\<rparr>]
     \<lparr>foundCols := [0, 1, 2]\<rparr>"
  by (simp_all add: person_bound_def header_eval del: ParseHeader_header.simps(2))

lemma gauge_bound_eq:
  "ParseHeader ascii_lib gauge_reader [''Level''] = (None, gauge_bound)"
  "gauge_bound = decoder_for gauge_type
     [\<lparr>Header = ''level'', Required = False, RecordIndex = 0, StructFieldIndex = 0\<rparr>]
     \<lparr>foundCols := [0]\<rparr>"
  by (simp_all add: gauge_bound_def gauge_reader_def header_eval del: ParseHeader_header.simps(2))

lemma award_bound_eq:
  "ParseHeader ascii_lib award_reader [''Name'', ''Bonus''] = (None, award_bound)"
  "award_bound = decoder_for award_type
     [\<lparr>Header = ''name'', Required = False, RecordIndex = 0, StructFieldIndex = 0\<rparr>,
      \<lparr>Header = ''bonus'', Required = False, RecordIndex = 1, StructFieldIndex = 1\<rparr>]
     \<lparr>foundCols := [0, 1]\<rparr>"
  by (simp_all add: award_bound_def award_reader_def header_eval del: ParseHeader_header.simps(2))

lemma hidden_bound_eq:
  "ParseHeader ascii_lib hidden_reader [''age''] = (None, hidden_bound)"
  "hidden_bound = decoder_for hidden_type
     [\<lparr>Header = ''name'', Required = False, RecordIndex = - 1, StructFieldIndex = 0\<rparr>,
      \<lparr>Header = ''age'', Required = True, RecordIndex = 0, StructFieldIndex = 1\<rparr>]
     \<lparr>foundCols := [1]\<rparr>"
  by (simp_all add: hidden_bound_def hidden_reader_def header_eval del: ParseHeader_header.simps(2))

lemma twin_bound_eq:
  "ParseHeader ascii_lib twin_reader [''x''] = (None, twin_bound)"
  "twin_bound = decoder_for twin_type
     [\<lparr>Header = ''x'', Required = False, RecordIndex = 0, StructFieldIndex = 0\<rparr>,
      \<lparr>Header = ''x'', Required = False, RecordIndex = 0, StructFieldIndex = 1\<rparr>]
     \<lparr>foundCols := [0, 1]\<rparr>"
  by (simp_all add: twin_bound_def twin_reader_def header_eval del: ParseHeader_header.simps(2))

subsection \<open>Unknown columns\<close>

text \<open>
  Claim C1. If the normalised cell at some position \<open>i\<close> of the header equals the
  \<open>Header\<close> of no descriptor, \<^verbatim>\<open>ParseHeader\<close> fails with the error
  \<^verbatim>\<open>Unexpected column\<close> followed by the quoted original cell, wherever the unknown
  column stands. The scan stops at the first unknown cell, at a position \<open>j \<le> i\<close>
  (which is \<open>i\<close> itself when every cell before \<open>i\<close> is known): the error names that
  cell as the header gives it, not its normalised form, and the decoder is left as the
  cells before \<open>j\<close> alone leave it, so no later cell is examined and the check of the
  mandatory columns is not reached.
\<close>

theorem ParseHeader_unexpected_column:
  assumes "i < length header"
    and "normalize_cell lib (header ! i) \<notin> Header ` set (cols r)"
  shows "\<exists>j\<le>i. normalize_cell lib (header ! j) \<notin> Header ` set (cols r) \<and>
           (\<forall>k<j. normalize_cell lib (header ! k) \<in> Header ` set (cols r)) \<and>
           ((\<forall>k<i. normalize_cell lib (header ! k) \<in> Header ` set (cols r)) \<longrightarrow> j = i) \<and>
           ParseHeader lib r header =
             (Some (IncorrectFileErr (''Unexpected column '' @ strconv_Quote lib (header ! j))),
              snd (ParseHeader lib r (take j header)))"
proof -
  define P where "P k \<longleftrightarrow> normalize_cell lib (header ! k) \<notin> Header ` set (cols r)" for k
  define j where "j = (LEAST k. P k)"
  have Pi: "P i" using assms(2) by (simp add: P_def)
  have Pj: "P j" unfolding j_def using Pi by (rule LeastI)
  have ji: "j \<le> i" unfolding j_def using Pi by (rule Least_le)
  have before: "\<forall>k<j. \<not> P k" unfolding j_def using not_less_Least by blast
  have jlen: "j < length header" using ji assms(1) by simp
  have first: "(\<forall>k<i. \<not> P k) \<longrightarrow> j = i" using Pj ji by (auto simp: le_less)
  have "ParseHeader lib r header =
             (Some (IncorrectFileErr (''Unexpected column '' @ strconv_Quote lib (header ! j))),
              snd (ParseHeader lib r (take j header)))"
    using ParseHeader_unexpected_first[OF jlen] Pj before by (simp add: P_def)
  with Pj before first ji show ?thesis unfolding P_def by blast
qed

text \<open>The header \<^verbatim>\<open>["Name", "Age", "Extra"]\<close> of the specification's scenario.\<close>

theorem ParseHeader_unexpected_column_witness:
  "(2::nat) < length [''Name'', ''Age'', ''Extra''] \<and>
   normalize_cell ascii_lib ([''Name'', ''Age'', ''Extra''] ! 2) \<notin> Header ` set (cols person_reader) \<and>
   fst (ParseHeader ascii_lib person_reader [''Name'', ''Age'', ''Extra'']) =
     Some (IncorrectFileErr (''Unexpected column '' @ [CHR 0x22] @ ''Extra'' @ [CHR 0x22])) \<and>
   snd (ParseHeader ascii_lib person_reader [''Name'', ''Age'', ''Extra'']) =
     snd (ParseHeader ascii_lib person_reader [''Name'', ''Age''])"
proof -
  let ?h = "[''Name'', ''Age'', ''Extra'']"
  have h1: "(2::nat) < length ?h" by simp
  have h2: "normalize_cell ascii_lib (?h ! 2) \<notin> Header ` set (cols person_reader)"
    by (simp add: person_known)
  have before: "\<forall>k<2. normalize_cell ascii_lib (?h ! k) \<in> Header ` set (cols person_reader)"
    by (simp add: less_Suc_eq numeral_2_eq_2 person_known)
  from ParseHeader_unexpected_column[OF h1 h2] before
  have "ParseHeader ascii_lib person_reader ?h =
          (Some (IncorrectFileErr (''Unexpected column '' @ strconv_Quote ascii_lib (?h ! 2))),
           snd (ParseHeader ascii_lib person_reader (take 2 ?h)))"
    by blast
  then have c: "fst (ParseHeader ascii_lib person_reader ?h) =
     Some (IncorrectFileErr (''Unexpected column '' @ [CHR 0x22] @ ''Extra'' @ [CHR 0x22])) \<and>
     snd (ParseHeader ascii_lib person_reader ?h) = snd (ParseHeader ascii_lib person_reader [''Name'', ''Age''])"
    by (simp add: ascii_lib_def ascii_Quote_def)
  show ?thesis by (rule conjI[OF h1 conjI[OF h2 c]])
qed

subsection \<open>Missing mandatory columns\<close>

text \<open>
  Claim C2. For a header all of whose cells match some descriptor, \<^verbatim>\<open>ParseHeader\<close>
  fails exactly when some descriptor with \<open>Required\<close> set has a \<open>Header\<close> that no
  normalised cell equals; the error is \<^verbatim>\<open>Mandatory column\<close>, the quoted \<open>Header\<close> of
  the first such descriptor in declaration order, \<^verbatim>\<open>is missing\<close>. A header that
  leaves out only columns that are not required is accepted.
\<close>

theorem ParseHeader_mandatory_column:
  assumes "\<forall>h\<in>set header. normalize_cell lib h \<in> Header ` set (cols r)"
  shows "fst (ParseHeader lib r header) =
           (case find (\<lambda>f. Required f \<and> Header f \<notin> normalize_cell lib ` set header) (cols r) of
              None \<Rightarrow> None
            | Some f \<Rightarrow> Some (IncorrectFileErr
                  (''Mandatory column '' @ strconv_Quote lib (Header f) @ '' is missing''))) \<and>
         (fst (ParseHeader lib r header) = None \<longleftrightarrow>
            \<not> (\<exists>f\<in>set (cols r). Required f \<and> Header f \<notin> normalize_cell lib ` set header))"
proof -
  let ?r' = "snd (ParseHeader_header lib header 0 (reset r))"
  have known: "\<forall>h\<in>set header. normalize_cell lib h \<in> Header ` set (cols (reset r))"
    using assms by simp
  have rel: "\<forall>p<length (cols r). Header (cols ?r' ! p) = Header (cols r ! p) \<and>
        Required (cols ?r' ! p) = Required (cols r ! p) \<and>
        (RecordIndex (cols ?r' ! p) = - 1 \<longleftrightarrow> Header (cols r ! p) \<notin> normalize_cell lib ` set header)"
  proof (intro allI impI)
    fix p assume p: "p < length (cols r)"
    then have "p < length (cols (reset r))" by simp
    from ParseHeader_header_nth[OF known this, of 0] p
    show "Header (cols ?r' ! p) = Header (cols r ! p) \<and>
        Required (cols ?r' ! p) = Required (cols r ! p) \<and>
        (RecordIndex (cols ?r' ! p) = - 1 \<longleftrightarrow> Header (cols r ! p) \<notin> normalize_cell lib ` set header)"
      by (auto split: if_splits)
  qed
  have eq: "fst (ParseHeader lib r header) =
           (case find (\<lambda>f. Required f \<and> Header f \<notin> normalize_cell lib ` set header) (cols r) of
              None \<Rightarrow> None
            | Some f \<Rightarrow> Some (IncorrectFileErr
                  (''Mandatory column '' @ strconv_Quote lib (Header f) @ '' is missing'')))"
    unfolding ParseHeader_known[OF assms] fst_conv
    by (rule ParseHeader_required_find) (simp, rule rel)
  have "fst (ParseHeader lib r header) = None \<longleftrightarrow>
            \<not> (\<exists>f\<in>set (cols r). Required f \<and> Header f \<notin> normalize_cell lib ` set header)"
    unfolding eq by (auto simp: find_None_iff find_Some_iff split: option.splits)
  with eq show ?thesis by blast
qed

text \<open>The header \<^verbatim>\<open>["Name"]\<close> lacks the required \<^verbatim>\<open>age\<close>; the header
  \<^verbatim>\<open>["Name", " AGE "]\<close> lacks only the optional \<^verbatim>\<open>score\<close>.\<close>

theorem ParseHeader_mandatory_column_witness:
  "list_all (\<lambda>h. normalize_cell ascii_lib h \<in> Header ` set (cols person_reader)) [''Name''] \<and>
   fst (ParseHeader ascii_lib person_reader [''Name'']) =
     Some (IncorrectFileErr (''Mandatory column '' @ [CHR 0x22] @ ''age'' @ [CHR 0x22] @ '' is missing'')) \<and>
   list_all (\<lambda>h. normalize_cell ascii_lib h \<in> Header ` set (cols person_reader)) [''Name'', '' AGE ''] \<and>
   fst (ParseHeader ascii_lib person_reader [''Name'', '' AGE '']) = None"
proof -
  have h1: "\<forall>h\<in>set [''Name'']. normalize_cell ascii_lib h \<in> Header ` set (cols person_reader)"
    by (simp add: person_known)
  have h2: "\<forall>h\<in>set [''Name'', '' AGE '']. normalize_cell ascii_lib h \<in> Header ` set (cols person_reader)"
    by (simp add: example_defs)
  have c1: "fst (ParseHeader ascii_lib person_reader [''Name'']) =
     Some (IncorrectFileErr (''Mandatory column '' @ [CHR 0x22] @ ''age'' @ [CHR 0x22] @ '' is missing''))"
    using ParseHeader_mandatory_column[OF h1] by (simp add: example_defs)
  have c2: "fst (ParseHeader ascii_lib person_reader [''Name'', '' AGE '']) = None"
    using ParseHeader_mandatory_column[OF h2] by (simp add: example_defs)
  from h1 h2 c1 c2 show ?thesis by (simp only: list_all_iff) 
qed

subsection \<open>A clean slate for every header\<close>

text \<open>
  Claim C5. \<^verbatim>\<open>ParseHeader\<close> resets the decoder before it scans: \<^verbatim>\<open>reset\<close> sets the
  \<open>RecordIndex\<close> of every descriptor to \<open>-1\<close> and empties \<open>foundCols\<close>, and what a call
  returns and leaves behind is the same from the decoder as built, from the reset
  decoder and from the decoder an earlier call with any other header has left. Nothing
  of the first header's bindings reaches the second call.
\<close>

theorem ParseHeader_clean_slate:
  "reset (snd (ParseHeader lib r h1)) = reset r \<and>
   ParseHeader lib (snd (ParseHeader lib r h1)) h2 = ParseHeader lib r h2 \<and>
   ParseHeader lib r h2 = ParseHeader lib (reset r) h2 \<and>
   list_all (\<lambda>col. RecordIndex col = - 1) (cols (reset r)) \<and> foundCols (reset r) = []"
proof -
  have a: "reset (snd (ParseHeader lib r h1)) = reset r"
    by (simp add: snd_ParseHeader)
  have b: "ParseHeader lib (snd (ParseHeader lib r h1)) h2 = ParseHeader lib r h2"
    using a by (rule ParseHeader_reset_cong)
  have c: "ParseHeader lib r h2 = ParseHeader lib (reset r) h2"
    by (rule ParseHeader_reset_cong) simp
  have d: "list_all (\<lambda>col. RecordIndex col = - 1) (cols (reset r))"
    by (simp add: reset_def list_all_iff)
  have e: "foundCols (reset r) = []"
    by (simp add: reset_def)
  from a b c d e show ?thesis by blast
qed

theorem ParseHeader_clean_slate_witness:
  "ParseHeader ascii_lib (snd (ParseHeader ascii_lib person_reader [''Age'', ''Score'', ''Name''])) [''Name'', ''Age'']
     = ParseHeader ascii_lib person_reader [''Name'', ''Age''] \<and>
   map RecordIndex (cols (snd (ParseHeader ascii_lib person_reader [''Age'', ''Score'', ''Name'']))) = [2, 0, 1] \<and>
   foundCols (snd (ParseHeader ascii_lib person_reader [''Age'', ''Score'', ''Name''])) = [1, 2, 0] \<and>
   map RecordIndex (cols (snd (ParseHeader ascii_lib person_reader [''Name'', ''Age'']))) = [0, 1, - 1] \<and>
   foundCols (snd (ParseHeader ascii_lib person_reader [''Name'', ''Age''])) = [0, 1]"
proof -
  have a: "ParseHeader ascii_lib (snd (ParseHeader ascii_lib person_reader [''Age'', ''Score'', ''Name''])) [''Name'', ''Age'']
     = ParseHeader ascii_lib person_reader [''Name'', ''Age'']"
    using ParseHeader_clean_slate[of ascii_lib person_reader "[''Age'', ''Score'', ''Name'']" "[''Name'', ''Age'']"]
    by blast
  have b: "map RecordIndex (cols (snd (ParseHeader ascii_lib person_reader [''Age'', ''Score'', ''Name'']))) = [2, 0, 1] \<and>
   foundCols (snd (ParseHeader ascii_lib person_reader [''Age'', ''Score'', ''Name''])) = [1, 2, 0] \<and>
   map RecordIndex (cols (snd (ParseHeader ascii_lib person_reader [''Name'', ''Age'']))) = [0, 1, - 1] \<and>
   foundCols (snd (ParseHeader ascii_lib person_reader [''Name'', ''Age''])) = [0, 1]"
    by (simp add: snd_ParseHeader ParseHeader_header_Cons person_known example_defs reset_def
        bind_col_def matching_def del: ParseHeader_header.simps(2))
  from a b show ?thesis by (rule conjI)
qed

section \<open>Row decoding\<close>

subsection \<open>The errors of setField and the loop of unmarshal\<close>

text \<open>
  A failing \<^verbatim>\<open>setField\<close> leaves the field as \<open>left_on_failure\<close> says and returns a
  parse error or the error for an unsupported type. A failing loop splits at the first
  failing column: the columns before it have succeeded, and the body fails on it.
\<close>

lemma setField_failure:
  "setField lib r t old s = (Some e, v) \<Longrightarrow> v = left_on_failure t old"
proof (induction lib r t old s arbitrary: e v rule: setField.induct)
  case (1 lib r t old s)
  then show ?case by (auto split: prod.splits)
next
  case (2 lib r k n old s)
  then show ?case by (auto split: if_splits sum.splits)
qed

lemma ParseBool_error: "ParseBool s = Inl e \<Longrightarrow> e = NumError ''ParseBool'' s ErrSyntax"
  by (auto simp: ParseBool_def split: if_splits)

lemma ParseUint_error: "ParseUint s = Inl e \<Longrightarrow> \<exists>k. e = NumError ''ParseUint'' s k"
  by (auto simp: ParseUint_def split: if_splits sum.splits)

lemma ParseFloat_error: "ParseFloat lib s = Inl e \<Longrightarrow> \<exists>k. e = NumError ''ParseFloat'' s k"
  by (auto simp: ParseFloat_def split: if_splits sum.splits)

lemma ParseInt_error: "ParseInt s = Inl e \<Longrightarrow> \<exists>k. e = NumError ''ParseInt'' s k"
  by (auto simp: ParseInt_def Let_def split: if_splits)

lemma coercion_error_simps [simp]:
  "coercion_error (NumError f n k)" "coercion_error (ParseError m)"
  "coercion_error (ErrorString (unsupported_msg t))" "\<not> coercion_error (Panic m)"
  "\<not> coercion_error (IncorrectFileErr m)"
  by (simp_all add: coercion_error_def unsupported_msg_def)

lemma setField_error_kind:
  "setField lib r t old s = (Some e, v) \<Longrightarrow> coercion_error e"
proof (induction lib r t old s arbitrary: e v rule: setField.induct)
  case (1 lib r t old s)
  then show ?case by (auto split: prod.splits)
next
  case (2 lib r k n old s)
  then show ?case
    by (auto split: if_splits sum.splits
        dest: ParseBool_error ParseInt_error ParseUint_error ParseFloat_error)
qed

lemma coercion_error_not_row_shape: "\<not> coercion_error row_shape_error"
  by (simp add: coercion_error_def row_shape_error_def unsupported_msg_def)

lemma coercion_error_not_Panic: "\<not> coercion_error (Panic m)"
  by simp

lemma unmarshal_cols_append:
  "unmarshal_cols skip setf cs (pre @ post) rv record =
     (case unmarshal_cols skip setf cs pre rv record of
        (Some e, rv1) \<Rightarrow> (Some e, rv1)
      | (None, rv1) \<Rightarrow> unmarshal_cols skip setf cs post rv1 record)"
  by (induction pre arbitrary: rv) (auto split: prod.splits option.splits)

lemma unmarshal_cols_failure:
  "unmarshal_cols skip setf cs ps rv record = (Some e, rv') \<Longrightarrow>
   \<exists>pre p post rv1. ps = pre @ p # post \<and>
      unmarshal_cols skip setf cs pre rv record = (None, rv1) \<and>
      unmarshal_col skip setf (cs ! p) rv1 record = (Some e, rv')"
proof (induction ps arbitrary: rv)
  case Nil
  then show ?case by simp
next
  case (Cons p ps)
  obtain e1 rv2 where step: "unmarshal_col skip setf (cs ! p) rv record = (e1, rv2)"
    by (cases "unmarshal_col skip setf (cs ! p) rv record")
  show ?case
  proof (cases e1)
    case (Some err)
    with step Cons.prems have "err = e" "rv2 = rv'" by auto
    with step Some have "p # ps = [] @ p # ps \<and> unmarshal_cols skip setf cs [] rv record = (None, rv) \<and>
      unmarshal_col skip setf (cs ! p) rv record = (Some e, rv')" by simp
    then show ?thesis by blast
  next
    case None
    with step Cons.prems have "unmarshal_cols skip setf cs ps rv2 record = (Some e, rv')" by simp
    from Cons.IH[OF this] obtain pre q post rv1 where
      a: "ps = pre @ q # post" "unmarshal_cols skip setf cs pre rv2 record = (None, rv1)"
         "unmarshal_col skip setf (cs ! q) rv1 record = (Some e, rv')" by blast
    from a(1,2) step None have "p # ps = (p # pre) @ q # post \<and>
        unmarshal_cols skip setf cs (p # pre) rv record = (None, rv1)" by simp
    with a(3) show ?thesis by blast
  qed
qed

lemma unmarshal_col_failure:
  assumes "unmarshal_col skip setf c rv record = (Some e, rv')"
  shows "(\<exists>m. e = Panic m) \<and> rv' = rv \<or>
         0 \<le> RecordIndex c \<and> RecordIndex c < int (length record) \<and>
         StructFieldIndex c < length (tfields (itype rv)) \<and> StructFieldIndex c < length (ivals rv) \<and>
         exported (tfields (itype rv) ! StructFieldIndex c) \<and>
         (\<exists>v. setf (ftype (tfields (itype rv) ! StructFieldIndex c)) (ivals rv ! StructFieldIndex c)
                 (record ! nat (RecordIndex c)) = (Some e, v) \<and>
              rv' = rv\<lparr>ivals := (ivals rv)[StructFieldIndex c := v]\<rparr>)"
  using assms by (auto simp: unmarshal_col_def Let_def split: if_splits prod.splits)

lemma unmarshal_col_itype:
  "itype (snd (unmarshal_col skip setf c rv record)) = itype rv \<and>
   length (ivals (snd (unmarshal_col skip setf c rv record))) = length (ivals rv)"
  by (auto simp: unmarshal_col_def Let_def split: if_splits prod.splits)

lemma unmarshal_cols_itype:
  "itype (snd (unmarshal_cols skip setf cs ps rv record)) = itype rv \<and>
   length (ivals (snd (unmarshal_cols skip setf cs ps rv record))) = length (ivals rv)"
proof (induction ps arbitrary: rv)
  case Nil
  then show ?case by simp
next
  case (Cons p ps)
  obtain e1 rv2 where step: "unmarshal_col skip setf (cs ! p) rv record = (e1, rv2)"
    by (cases "unmarshal_col skip setf (cs ! p) rv record")
  with unmarshal_col_itype[of skip setf "cs ! p" rv "record"]
  have "itype rv2 = itype rv" "length (ivals rv2) = length (ivals rv)" by simp_all
  with step Cons.IH[of rv2] show ?case by (cases e1) simp_all
qed

lemma unmarshal_cols_error_kind:
  assumes "unmarshal_cols skip (setField lib r) cs ps rv record = (Some e, rv')"
  shows "(\<exists>m. e = Panic m) \<or> coercion_error e"
proof -
  from unmarshal_cols_failure[OF assms] obtain p rv1 where
    "unmarshal_col skip (setField lib r) (cs ! p) rv1 record = (Some e, rv')" by blast
  from unmarshal_col_failure[OF this] show ?thesis
    by (auto dest: setField_error_kind)
qed

lemma unmarshal_not_row_shape:
  "fst (unmarshal lib r rv record) \<noteq> Some row_shape_error"
proof
  assume a: "fst (unmarshal lib r rv record) = Some row_shape_error"
  then obtain rv' where "unmarshal_cols True (setField lib r) (cols r) (foundCols r) rv record
      = (Some row_shape_error, rv')"
    by (cases "unmarshal lib r rv record") (auto simp: unmarshal_def)
  from unmarshal_cols_error_kind[OF this] show False
    by (auto simp: coercion_error_not_row_shape) (simp add: row_shape_error_def)
qed

lemma unmarshal_col_unsettable:
  assumes "0 \<le> RecordIndex c" "RecordIndex c < int (length record)"
    and "StructFieldIndex c < length (tfields (itype rv))" "StructFieldIndex c < length (ivals rv)"
    and "\<not> exported (tfields (itype rv) ! StructFieldIndex c)"
  shows "unmarshal_col skip setf c rv record = (None, rv)"
  using assms by (simp add: unmarshal_col_def Let_def)

lemma unmarshal_col_settable:
  assumes "0 \<le> RecordIndex c" "RecordIndex c < int (length record)"
    and "StructFieldIndex c < length (tfields (itype rv))" "StructFieldIndex c < length (ivals rv)"
    and "exported (tfields (itype rv) ! StructFieldIndex c)"
    and "\<not> (skip \<and> \<not> Required c \<and> record ! nat (RecordIndex c) = [])"
  shows "unmarshal_col skip setf c rv record =
     (fst (setf (ftype (tfields (itype rv) ! StructFieldIndex c)) (ivals rv ! StructFieldIndex c)
             (record ! nat (RecordIndex c))),
      rv\<lparr>ivals := (ivals rv)[StructFieldIndex c :=
            snd (setf (ftype (tfields (itype rv) ! StructFieldIndex c)) (ivals rv ! StructFieldIndex c)
             (record ! nat (RecordIndex c)))]\<rparr>)"
  using assms by (auto simp: unmarshal_col_def Let_def split: prod.splits)

lemma unmarshal_failure_settable:
  assumes "unmarshal_cols skip setf cs ps rv record = (Some e, rv')" and "\<forall>m. e \<noteq> Panic m"
  shows "\<exists>pre p post rv1. ps = pre @ p # post \<and>
      unmarshal_cols skip setf cs pre rv record = (None, rv1) \<and>
      RecordIndex (cs ! p) < int (length record) \<and> 0 \<le> RecordIndex (cs ! p) \<and>
      StructFieldIndex (cs ! p) < length (tfields (itype rv)) \<and>
      exported (tfields (itype rv) ! StructFieldIndex (cs ! p)) \<and>
      (\<exists>v. setf (ftype (tfields (itype rv) ! StructFieldIndex (cs ! p)))
                (ivals rv1 ! StructFieldIndex (cs ! p)) (record ! nat (RecordIndex (cs ! p)))
              = (Some e, v) \<and>
           rv' = rv1\<lparr>ivals := (ivals rv1)[StructFieldIndex (cs ! p) := v]\<rparr>)"
proof -
  from unmarshal_cols_failure[OF assms(1)] obtain pre p post rv1 where
    a: "ps = pre @ p # post" "unmarshal_cols skip setf cs pre rv record = (None, rv1)"
       "unmarshal_col skip setf (cs ! p) rv1 record = (Some e, rv')" by blast
  have t: "itype rv1 = itype rv"
    using unmarshal_cols_itype[of skip setf cs pre rv "record"] a(2) by simp
  from unmarshal_col_failure[OF a(3)] assms(2) t a(1,2) show ?thesis
    by (intro exI[of _ pre] exI[of _ p] exI[of _ post] exI[of _ rv1]) auto
qed

subsection \<open>The shape of a row\<close>

text \<open>
  Claim C4. After a \<^verbatim>\<open>ParseHeader\<close> that succeeded, \<^verbatim>\<open>UnmarshalCSV\<close> fails with the
  row-shape error exactly when the number of cells of the row differs from the length of
  \<open>foundCols\<close>. That length is the number of bindings the header has produced, one for
  every pair of a header cell and a descriptor named like it, which need not be the
  width of the header. When the two numbers are equal the call goes on to the check of
  the target's type and from there to \<^verbatim>\<open>unmarshal\<close>.
\<close>

theorem UnmarshalCSV_row_shape:
  assumes "ParseHeader lib r0 header = (None, r)"
  shows "(fst (UnmarshalCSV lib r record v) = Some row_shape_error
            \<longleftrightarrow> length record \<noteq> length (foundCols r)) \<and>
         length (foundCols r) =
           sum_list (map (\<lambda>h. length (matching (cols r0) (normalize_cell lib h))) header) \<and>
         (length record \<noteq> length (foundCols r) \<longrightarrow>
            UnmarshalCSV lib r record v = (Some row_shape_error, v)) \<and>
         (length record = length (foundCols r) \<longrightarrow>
            UnmarshalCSV lib r record v =
              (case v of
                 NotPointer \<Rightarrow> (Some (Panic ''reflect: call of reflect.Value.Elem''), v)
               | Pointer rv \<Rightarrow>
                   if itype rv \<noteq> recordType r then (Some (type_mismatch_error (recordType r)), v)
                   else (case unmarshal lib r rv record of (e, rv') \<Rightarrow> (e, Pointer rv'))))"
proof -
  have a: "length record \<noteq> length (foundCols r) \<Longrightarrow>
            UnmarshalCSV lib r record v = (Some row_shape_error, v)"
    by (simp add: UnmarshalCSV_def UnmarshalCSV_with_def)
  have b: "length record = length (foundCols r) \<Longrightarrow>
            UnmarshalCSV lib r record v =
              (case v of
                 NotPointer \<Rightarrow> (Some (Panic ''reflect: call of reflect.Value.Elem''), v)
               | Pointer rv \<Rightarrow>
                   if itype rv \<noteq> recordType r then (Some (type_mismatch_error (recordType r)), v)
                   else (case unmarshal lib r rv record of (e, rv') \<Rightarrow> (e, Pointer rv')))"
    by (simp add: UnmarshalCSV_def UnmarshalCSV_with_def)
  have c: "fst (UnmarshalCSV lib r record v) \<noteq> Some row_shape_error"
    if l: "length record = length (foundCols r)"
  proof (cases v)
    case NotPointer
    with b[OF l] show ?thesis by (simp add: row_shape_error_def)
  next
    case (Pointer rv)
    show ?thesis
    proof (cases "itype rv = recordType r")
      case True
      with Pointer b[OF l] unmarshal_not_row_shape[of lib r rv "record"] show ?thesis
        by (simp split: prod.splits)
    next
      case False
      with Pointer b[OF l] show ?thesis
        by (simp add: row_shape_error_def type_mismatch_error_def)
    qed
  qed
  have d: "length (foundCols r) =
           sum_list (map (\<lambda>h. length (matching (cols r0) (normalize_cell lib h))) header)"
    by (simp add: ParseHeader_foundCols[OF assms] length_concat comp_def)
  from a b c d show ?thesis by auto
qed

text \<open>Two fields are bound to the one column \<^verbatim>\<open>x\<close>: a row of one cell, as wide as the
  header, is refused, and a row of two cells is decoded (both fields from cell 0).\<close>

theorem UnmarshalCSV_row_shape_witness:
  "ParseHeader ascii_lib twin_reader [''x''] = (None, twin_bound) \<and>
   length [''x''] = 1 \<and> length (foundCols twin_bound) = 2 \<and>
   fst (UnmarshalCSV ascii_lib twin_bound [''5''] (Pointer (New twin_type))) = Some row_shape_error \<and>
   UnmarshalCSV ascii_lib twin_bound [''5'', ''6''] (Pointer (New twin_type)) =
     (None, Pointer \<lparr>itype = twin_type, ivals = [VInt 5, VInt 5]\<rparr>)"
proof -
  have h: "ParseHeader ascii_lib twin_reader [''x''] = (None, twin_bound)"
    by (rule twin_bound_eq)
  note t = UnmarshalCSV_row_shape[OF h]
  have n: "length (foundCols twin_bound) = 2"
    using t[of "[]" NotPointer] by (simp add: matching_def twin_reader_def example_defs)
  have a: "fst (UnmarshalCSV ascii_lib twin_bound [''5''] (Pointer (New twin_type))) = Some row_shape_error"
    using t[of "[''5'']" "Pointer (New twin_type)"] n by simp
  have b: "UnmarshalCSV ascii_lib twin_bound [''5'', ''6''] (Pointer (New twin_type)) =
     (None, Pointer \<lparr>itype = twin_type, ivals = [VInt 5, VInt 5]\<rparr>)"
    by (simp add: twin_bound_eq(2) row_eval twin_type_def)
  from h n a b show ?thesis by simp
qed

subsection \<open>Fields that cannot be set\<close>

text \<open>
  Claim C10. A bound column whose struct field is not settable (not exported) is passed
  over in both revisions: the round leaves the struct as it is, returns no error and the
  loop goes on with the next column, whatever the text of the cell. Conversely, when
  \<^verbatim>\<open>unmarshal\<close> returns an error that is no panic, some bound column has a settable
  field on which \<^verbatim>\<open>setField\<close> returned that error for the column's cell.
\<close>

theorem unmarshal_unsettable_skipped:
  "(0 \<le> RecordIndex (cols r ! p) \<and> RecordIndex (cols r ! p) < int (length record) \<and>
    StructFieldIndex (cols r ! p) < length (tfields (itype rv)) \<and>
    StructFieldIndex (cols r ! p) < length (ivals rv) \<and>
    \<not> exported (tfields (itype rv) ! StructFieldIndex (cols r ! p)) \<longrightarrow>
      unmarshal_cols True (setField lib r) (cols r) (p # ps) rv record =
        unmarshal_cols True (setField lib r) (cols r) ps rv record \<and>
      unmarshal_cols False (setField_v2 lib r) (cols r) (p # ps) rv record =
        unmarshal_cols False (setField_v2 lib r) (cols r) ps rv record) \<and>
   (unmarshal lib r rv record = (Some e, rv') \<and> (\<forall>m. e \<noteq> Panic m) \<longrightarrow>
      (\<exists>p\<in>set (foundCols r). \<exists>old.
          exported (tfields (itype rv) ! StructFieldIndex (cols r ! p)) \<and>
          fst (setField lib r (ftype (tfields (itype rv) ! StructFieldIndex (cols r ! p))) old
                 (record ! nat (RecordIndex (cols r ! p)))) = Some e))"
proof (intro conjI impI)
  assume a: "0 \<le> RecordIndex (cols r ! p) \<and> RecordIndex (cols r ! p) < int (length record) \<and>
    StructFieldIndex (cols r ! p) < length (tfields (itype rv)) \<and>
    StructFieldIndex (cols r ! p) < length (ivals rv) \<and>
    \<not> exported (tfields (itype rv) ! StructFieldIndex (cols r ! p))"
  then show "unmarshal_cols True (setField lib r) (cols r) (p # ps) rv record =
        unmarshal_cols True (setField lib r) (cols r) ps rv record"
    by (simp add: unmarshal_col_unsettable)
  from a show "unmarshal_cols False (setField_v2 lib r) (cols r) (p # ps) rv record =
        unmarshal_cols False (setField_v2 lib r) (cols r) ps rv record"
    by (simp add: unmarshal_col_unsettable)
next
  assume "unmarshal lib r rv record = (Some e, rv') \<and> (\<forall>m. e \<noteq> Panic m)"
  then have f: "unmarshal_cols True (setField lib r) (cols r) (foundCols r) rv record = (Some e, rv')"
    and np: "\<forall>m. e \<noteq> Panic m" by (simp_all add: unmarshal_def)
  from unmarshal_failure_settable[OF f np] obtain pre p post rv1 where
    a0: "foundCols r = pre @ p # post \<and>
       exported (tfields (itype rv) ! StructFieldIndex (cols r ! p)) \<and>
       (\<exists>v. setField lib r (ftype (tfields (itype rv) ! StructFieldIndex (cols r ! p)))
                (ivals rv1 ! StructFieldIndex (cols r ! p)) (record ! nat (RecordIndex (cols r ! p)))
              = (Some e, v) \<and> rv' = rv1\<lparr>ivals := (ivals rv1)[StructFieldIndex (cols r ! p) := v]\<rparr>)"
    by (elim exE conjE) (rule that, intro conjI exI, assumption+)
  then obtain v where
    a: "foundCols r = pre @ p # post"
       "exported (tfields (itype rv) ! StructFieldIndex (cols r ! p))"
       "setField lib r (ftype (tfields (itype rv) ! StructFieldIndex (cols r ! p)))
                (ivals rv1 ! StructFieldIndex (cols r ! p)) (record ! nat (RecordIndex (cols r ! p)))
              = (Some e, v)" by blast
  from a(1) have "p \<in> set (foundCols r)" by simp
  moreover from a(3) have "fst (setField lib r (ftype (tfields (itype rv) ! StructFieldIndex (cols r ! p)))
                (ivals rv1 ! StructFieldIndex (cols r ! p)) (record ! nat (RecordIndex (cols r ! p)))) = Some e"
    by simp
  ultimately show "\<exists>p\<in>set (foundCols r). \<exists>old.
          exported (tfields (itype rv) ! StructFieldIndex (cols r ! p)) \<and>
          fst (setField lib r (ftype (tfields (itype rv) ! StructFieldIndex (cols r ! p))) old
                 (record ! nat (RecordIndex (cols r ! p)))) = Some e"
    using a(2) by blast
qed

text \<open>The field \<^verbatim>\<open>age int\<close> is not exported: the cell \<^verbatim>\<open>not-a-number\<close>, which
  \<^verbatim>\<open>ParseInt\<close> rejects, is decoded without an error and without a write.\<close>

theorem unmarshal_unsettable_skipped_witness:
  "0 \<le> RecordIndex (cols hidden_bound ! 1) \<and>
   RecordIndex (cols hidden_bound ! 1) < int (length [''not-a-number'']) \<and>
   StructFieldIndex (cols hidden_bound ! 1) < length (tfields (itype (New hidden_type))) \<and>
   StructFieldIndex (cols hidden_bound ! 1) < length (ivals (New hidden_type)) \<and>
   \<not> exported (tfields (itype (New hidden_type)) ! StructFieldIndex (cols hidden_bound ! 1)) \<and>
   ftype (tfields (itype (New hidden_type)) ! StructFieldIndex (cols hidden_bound ! 1)) = Ty reflect_Int ''int'' \<and>
   ParseInt ''not-a-number'' = Inl (NumError ''ParseInt'' ''not-a-number'' ErrSyntax) \<and>
   foundCols hidden_bound = [1] \<and>
   unmarshal ascii_lib hidden_bound (New hidden_type) [''not-a-number''] = (None, New hidden_type) \<and>
   unmarshal_v2 ascii_lib hidden_bound (New hidden_type) [''not-a-number''] = (None, New hidden_type)"
proof -
  have h: "0 \<le> RecordIndex (cols hidden_bound ! 1) \<and>
   RecordIndex (cols hidden_bound ! 1) < int (length [''not-a-number'']) \<and>
   StructFieldIndex (cols hidden_bound ! 1) < length (tfields (itype (New hidden_type))) \<and>
   StructFieldIndex (cols hidden_bound ! 1) < length (ivals (New hidden_type)) \<and>
   \<not> exported (tfields (itype (New hidden_type)) ! StructFieldIndex (cols hidden_bound ! 1))"
    by (simp add: hidden_bound_eq(2) decoder_for_def New_def hidden_type_def)
  have e: "ftype (tfields (itype (New hidden_type)) ! StructFieldIndex (cols hidden_bound ! 1)) = Ty reflect_Int ''int'' \<and>
   ParseInt ''not-a-number'' = Inl (NumError ''ParseInt'' ''not-a-number'' ErrSyntax) \<and>
   foundCols hidden_bound = [1]"
    by (simp add: hidden_bound_eq(2) decoder_for_def New_def hidden_type_def ParseInt_def is_digit_def)
  from unmarshal_unsettable_skipped[of hidden_bound 1 "[''not-a-number'']" "New hidden_type" ascii_lib "[]"] h
  have c: "unmarshal ascii_lib hidden_bound (New hidden_type) [''not-a-number''] = (None, New hidden_type) \<and>
   unmarshal_v2 ascii_lib hidden_bound (New hidden_type) [''not-a-number''] = (None, New hidden_type)"
    using e by (simp add: unmarshal_def unmarshal_v2_def)
  from h e c show ?thesis by simp
qed

subsection \<open>The first failure ends the row\<close>

text \<open>
  Claim C8, as amended. When \<^verbatim>\<open>unmarshal\<close> fails, \<open>foundCols\<close> splits at the first
  failing column: the columns before it have been decoded without error into a struct
  \<open>rv1\<close>, the body of the loop fails on it with the returned error, and the struct left
  behind is \<open>rv1\<close> except for the field of the failing column. Nothing is rolled back, so
  the fields written before keep their values, and the later columns are not reached. The
  field of the failing column is unchanged when its type is no pointer. When its type is
  a pointer it has been replaced: it points to a newly allocated zero value, since
  \<^verbatim>\<open>setField\<close> allocates before it parses.
\<close>

theorem unmarshal_first_failure:
  assumes "unmarshal lib r rv record = (Some e, rv')"
  shows "\<exists>pre p post rv1. foundCols r = pre @ p # post \<and>
      unmarshal_cols True (setField lib r) (cols r) pre rv record = (None, rv1) \<and>
      unmarshal_col True (setField lib r) (cols r ! p) rv1 record = (Some e, rv') \<and>
      ((\<exists>m. e = Panic m) \<and> rv' = rv1 \<or>
       exported (tfields (itype rv1) ! StructFieldIndex (cols r ! p)) \<and>
       fst (setField lib r (ftype (tfields (itype rv1) ! StructFieldIndex (cols r ! p)))
              (ivals rv1 ! StructFieldIndex (cols r ! p))
              (record ! nat (RecordIndex (cols r ! p)))) = Some e \<and>
       rv' = rv1\<lparr>ivals := (ivals rv1)[StructFieldIndex (cols r ! p) :=
                 left_on_failure (ftype (tfields (itype rv1) ! StructFieldIndex (cols r ! p)))
                   (ivals rv1 ! StructFieldIndex (cols r ! p))]\<rparr>) \<and>
      (\<forall>i. i \<noteq> StructFieldIndex (cols r ! p) \<longrightarrow> ivals rv' ! i = ivals rv1 ! i) \<and>
      ((\<forall>t. ftype (tfields (itype rv1) ! StructFieldIndex (cols r ! p)) \<noteq> PtrTo t) \<longrightarrow> rv' = rv1)"
proof -
  from assms have f: "unmarshal_cols True (setField lib r) (cols r) (foundCols r) rv record = (Some e, rv')"
    by (simp add: unmarshal_def)
  from unmarshal_cols_failure[OF f] obtain pre p post rv1 where
    a: "foundCols r = pre @ p # post"
       "unmarshal_cols True (setField lib r) (cols r) pre rv record = (None, rv1)"
       "unmarshal_col True (setField lib r) (cols r ! p) rv1 record = (Some e, rv')" by blast
  let ?i = "StructFieldIndex (cols r ! p)"
  let ?t = "ftype (tfields (itype rv1) ! ?i)"
  from unmarshal_col_failure[OF a(3)]
  have b: "(\<exists>m. e = Panic m) \<and> rv' = rv1 \<or>
       exported (tfields (itype rv1) ! ?i) \<and>
       fst (setField lib r ?t (ivals rv1 ! ?i) (record ! nat (RecordIndex (cols r ! p)))) = Some e \<and>
       rv' = rv1\<lparr>ivals := (ivals rv1)[?i := left_on_failure ?t (ivals rv1 ! ?i)]\<rparr>"
    by (auto dest: setField_failure)
  then have c: "\<forall>i. i \<noteq> ?i \<longrightarrow> ivals rv' ! i = ivals rv1 ! i"
    by auto
  have d: "(\<forall>t. ?t \<noteq> PtrTo t) \<longrightarrow> rv' = rv1"
  proof
    assume "\<forall>t. ?t \<noteq> PtrTo t"
    then obtain k n where "?t = Ty k n" by (cases ?t) auto
    with b show "rv' = rv1" by auto
  qed
  from a b c d show ?thesis by blast
qed

text \<open>The claim as stated says that the field of the failing column is left untouched.
  The field \<^verbatim>\<open>Bonus *int\<close> is \<^verbatim>\<open>nil\<close> before the row \<^verbatim>\<open>["Alice", "x"]\<close> and points
  to \<open>0\<close> after it, although the parse of \<^verbatim>\<open>x\<close> has failed.\<close>

theorem unmarshal_first_failure_counterexample:
  "NewDecodeStruct ascii_lib (PtrToStruct award_type) [] = Inr award_reader \<and>
   ParseHeader ascii_lib award_reader [''Name'', ''Bonus''] = (None, award_bound) \<and>
   ivals (New award_type) = [VString [], VPtr None] \<and>
   UnmarshalCSV ascii_lib award_bound [''Alice'', ''x''] (Pointer (New award_type)) =
     (Some (NumError ''ParseInt'' ''x'' ErrSyntax),
      Pointer \<lparr>itype = award_type, ivals = [VString ''Alice'', VPtr (Some (VInt 0))]\<rparr>) \<and>
   VPtr (Some (VInt 0)) \<noteq> VPtr None"
  by (simp add: readers_built award_bound_eq(1))
     (simp add: award_bound_eq(2) row_eval award_type_def)

text \<open>The row \<^verbatim>\<open>["Alice", "not-a-number", "1.5"]\<close> of the specification's scenario:
  \<^verbatim>\<open>Name\<close> keeps \<^verbatim>\<open>Alice\<close>, \<^verbatim>\<open>Age\<close> and \<^verbatim>\<open>Score\<close> keep their zero values.\<close>

theorem unmarshal_first_failure_witness:
  "unmarshal ascii_lib person_bound (New person_type) [''Alice'', ''not-a-number'', ''1.5''] =
     (Some (NumError ''ParseInt'' ''not-a-number'' ErrSyntax),
      \<lparr>itype = person_type, ivals = [VString ''Alice'', VInt 0, VFloat64 0]\<rparr>) \<and>
   (\<exists>pre p post rv1. foundCols person_bound = pre @ p # post \<and>
      unmarshal_cols True (setField ascii_lib person_bound) (cols person_bound) pre
        (New person_type) [''Alice'', ''not-a-number'', ''1.5''] = (None, rv1) \<and>
      unmarshal_col True (setField ascii_lib person_bound) (cols person_bound ! p) rv1
        [''Alice'', ''not-a-number'', ''1.5''] =
        (Some (NumError ''ParseInt'' ''not-a-number'' ErrSyntax),
         \<lparr>itype = person_type, ivals = [VString ''Alice'', VInt 0, VFloat64 0]\<rparr>) \<and>
      \<lparr>itype = person_type, ivals = [VString ''Alice'', VInt 0, VFloat64 0]\<rparr> = rv1)"
proof -
  let ?rec = "[''Alice'', ''not-a-number'', ''1.5'']"
  let ?rv' = "\<lparr>itype = person_type, ivals = [VString ''Alice'', VInt 0, VFloat64 0]\<rparr>"
  let ?e = "NumError ''ParseInt'' ''not-a-number'' ErrSyntax"
  have h: "unmarshal ascii_lib person_bound (New person_type) ?rec = (Some ?e, ?rv')"
    by (simp add: person_bound_eq(2) row_eval person_type_def)
  from unmarshal_first_failure[OF h] obtain pre p post rv1 where
    a: "foundCols person_bound = pre @ p # post"
       "unmarshal_cols True (setField ascii_lib person_bound) (cols person_bound) pre
          (New person_type) ?rec = (None, rv1)"
       "unmarshal_col True (setField ascii_lib person_bound) (cols person_bound ! p) rv1 ?rec
          = (Some ?e, ?rv')"
       "(\<forall>t. ftype (tfields (itype rv1) ! StructFieldIndex (cols person_bound ! p)) \<noteq> PtrTo t)
          \<longrightarrow> ?rv' = rv1"
    by blast
  have t: "itype rv1 = person_type"
    using unmarshal_cols_itype[of True "setField ascii_lib person_bound" "cols person_bound" pre
        "New person_type" ?rec] a(2) by (simp add: New_def)
  from a(1) have "p \<in> set (foundCols person_bound)" by simp
  then have "p = 0 \<or> p = 1 \<or> p = 2" by (simp add: person_bound_eq(2) decoder_for_def)
  then have "\<forall>t. ftype (tfields person_type ! StructFieldIndex (cols person_bound ! p)) \<noteq> PtrTo t"
    by (auto simp: person_bound_eq(2) decoder_for_def person_type_def)
  with a(4) t have "?rv' = rv1" by simp
  with a h show ?thesis by blast
qed

subsection \<open>Empty cells\<close>

lemma parse_empty:
  "ParseInt [] = Inl (NumError ''ParseInt'' [] ErrSyntax)"
  "ParseUint [] = Inl (NumError ''ParseUint'' [] ErrSyntax)"
  "ParseBool [] = Inl (NumError ''ParseBool'' [] ErrSyntax)"
  by (simp_all add: ParseInt_def ParseUint_def ParseBool_def)

lemma fst_setField_PtrTo:
  "fst (setField lib r (PtrTo t) old s) = fst (setField lib r t (zero t) s)"
  by (simp split: prod.splits)

lemma setField_empty_int:
  "kind_of t \<in> set int_kinds \<Longrightarrow>
   fst (setField lib r t old []) = Some (NumError ''ParseInt'' [] ErrSyntax)"
  by (induction t arbitrary: old)
     (auto simp: fst_setField_PtrTo parse_empty int_kinds_def simp del: setField.simps(1))

lemma setField_empty_uint:
  "kind_of t \<in> set uint_kinds \<Longrightarrow>
   fst (setField lib r t old []) = Some (NumError ''ParseUint'' [] ErrSyntax)"
  by (induction t arbitrary: old)
     (auto simp: fst_setField_PtrTo parse_empty int_kinds_def uint_kinds_def simp del: setField.simps(1))

lemma setField_empty_bool:
  "kind_of t = reflect_Bool \<Longrightarrow>
   fst (setField lib r t old []) = Some (NumError ''ParseBool'' [] ErrSyntax)"
  by (induction t arbitrary: old)
     (auto simp: fst_setField_PtrTo parse_empty simp del: setField.simps(1))

lemma setField_empty_float:
  "kind_of t \<in> set float_kinds \<Longrightarrow>
   fst (setField lib r t old []) = Some (NumError ''ParseFloat'' [] ErrSyntax)"
  by (induction t arbitrary: old)
     (auto simp: fst_setField_PtrTo ParseFloat_def int_kinds_def uint_kinds_def float_kinds_def
           simp del: setField.simps(1))

lemma setField_empty_time:
  "base_type t = Ty reflect_Struct ''time.Time'' \<Longrightarrow> time_Parse lib (timeFormat r) [] = Inl m \<Longrightarrow>
   fst (setField lib r t old []) = Some (ParseError m)"
  by (induction t arbitrary: old)
     (auto simp: fst_setField_PtrTo int_kinds_def uint_kinds_def float_kinds_def
           simp del: setField.simps(1))

text \<open>
  Claim C3, as amended. Let the cell of a bound column be the empty string. If the column
  is optional, the round of the loop leaves the struct as it is and the loop goes on with
  the next column: nothing is coerced. If the column is required and its field is
  settable, then a field of kind String is assigned the empty string and the loop goes
  on, and a field whose kind (under any pointers) is a signed or unsigned integer, a
  float or Bool makes the row fail with the syntax error of \<^verbatim>\<open>ParseInt\<close>,
  \<^verbatim>\<open>ParseUint\<close>, \<^verbatim>\<open>ParseFloat\<close> or \<^verbatim>\<open>ParseBool\<close>; a time field makes it fail
  with the error of \<^verbatim>\<open>time.Parse\<close> whenever that rejects the empty text under the
  configured layout. A required field that is not settable is covered by C10: it is
  passed over without an error.
\<close>

theorem unmarshal_empty_cell:
  assumes "0 \<le> RecordIndex (cols r ! p)" and "RecordIndex (cols r ! p) < int (length record)"
    and "record ! nat (RecordIndex (cols r ! p)) = []"
    and "StructFieldIndex (cols r ! p) < length (tfields (itype rv))"
    and "StructFieldIndex (cols r ! p) < length (ivals rv)"
  shows
    "(\<not> Required (cols r ! p) \<longrightarrow>
        unmarshal_cols True (setField lib r) (cols r) (p # ps) rv record =
          unmarshal_cols True (setField lib r) (cols r) ps rv record) \<and>
     (Required (cols r ! p) \<and> exported (tfields (itype rv) ! StructFieldIndex (cols r ! p)) \<longrightarrow>
        ((\<exists>n. ftype (tfields (itype rv) ! StructFieldIndex (cols r ! p)) = Ty reflect_String n) \<longrightarrow>
           unmarshal_cols True (setField lib r) (cols r) (p # ps) rv record =
             unmarshal_cols True (setField lib r) (cols r) ps
               (rv\<lparr>ivals := (ivals rv)[StructFieldIndex (cols r ! p) := VString []]\<rparr>) record) \<and>
        (kind_of (ftype (tfields (itype rv) ! StructFieldIndex (cols r ! p))) \<in> set int_kinds \<longrightarrow>
           fst (unmarshal_cols True (setField lib r) (cols r) (p # ps) rv record) =
             Some (NumError ''ParseInt'' [] ErrSyntax)) \<and>
        (kind_of (ftype (tfields (itype rv) ! StructFieldIndex (cols r ! p))) \<in> set uint_kinds \<longrightarrow>
           fst (unmarshal_cols True (setField lib r) (cols r) (p # ps) rv record) =
             Some (NumError ''ParseUint'' [] ErrSyntax)) \<and>
        (kind_of (ftype (tfields (itype rv) ! StructFieldIndex (cols r ! p))) = reflect_Bool \<longrightarrow>
           fst (unmarshal_cols True (setField lib r) (cols r) (p # ps) rv record) =
             Some (NumError ''ParseBool'' [] ErrSyntax)) \<and>
        (kind_of (ftype (tfields (itype rv) ! StructFieldIndex (cols r ! p))) \<in> set float_kinds \<longrightarrow>
           fst (unmarshal_cols True (setField lib r) (cols r) (p # ps) rv record) =
             Some (NumError ''ParseFloat'' [] ErrSyntax)) \<and>
        (\<forall>m. base_type (ftype (tfields (itype rv) ! StructFieldIndex (cols r ! p)))
                = Ty reflect_Struct ''time.Time'' \<and>
              time_Parse lib (timeFormat r) [] = Inl m \<longrightarrow>
           fst (unmarshal_cols True (setField lib r) (cols r) (p # ps) rv record) =
             Some (ParseError m)))"
proof -
  let ?c = "cols r ! p"
  let ?i = "StructFieldIndex ?c"
  let ?t = "ftype (tfields (itype rv) ! ?i)"
  have skip: "unmarshal_col True (setField lib r) ?c rv record = (None, rv)" if "\<not> Required ?c"
    using that assms by (simp add: unmarshal_col_def Let_def)
  have coerce: "unmarshal_col True (setField lib r) ?c rv record =
      (fst (setField lib r ?t (ivals rv ! ?i) []),
       rv\<lparr>ivals := (ivals rv)[?i := snd (setField lib r ?t (ivals rv ! ?i) [])]\<rparr>)"
    if "Required ?c" "exported (tfields (itype rv) ! ?i)"
    using unmarshal_col_settable[of ?c "record" rv True "setField lib r"] that assms by simp
  have fails: "fst (unmarshal_cols True (setField lib r) (cols r) (p # ps) rv record) = Some e"
    if "Required ?c" "exported (tfields (itype rv) ! ?i)"
       "fst (setField lib r ?t (ivals rv ! ?i) []) = Some e" for e
    using coerce[OF that(1,2)] that(3) by simp
  show ?thesis
  proof (intro conjI impI allI)
    assume "\<not> Required ?c"
    from skip[OF this] show "unmarshal_cols True (setField lib r) (cols r) (p # ps) rv record =
          unmarshal_cols True (setField lib r) (cols r) ps rv record" by simp
  next
    assume a: "Required ?c \<and> exported (tfields (itype rv) ! ?i)" and "\<exists>n. ?t = Ty reflect_String n"
    then obtain n where "?t = Ty reflect_String n" by blast
    with coerce a show "unmarshal_cols True (setField lib r) (cols r) (p # ps) rv record =
             unmarshal_cols True (setField lib r) (cols r) ps
               (rv\<lparr>ivals := (ivals rv)[?i := VString []]\<rparr>) record" by simp
  next
    assume a: "Required ?c \<and> exported (tfields (itype rv) ! ?i)" and "kind_of ?t \<in> set int_kinds"
    then show "fst (unmarshal_cols True (setField lib r) (cols r) (p # ps) rv record) =
             Some (NumError ''ParseInt'' [] ErrSyntax)"
      by (intro fails setField_empty_int) simp_all
  next
    assume a: "Required ?c \<and> exported (tfields (itype rv) ! ?i)" and "kind_of ?t \<in> set uint_kinds"
    then show "fst (unmarshal_cols True (setField lib r) (cols r) (p # ps) rv record) =
             Some (NumError ''ParseUint'' [] ErrSyntax)"
      by (intro fails setField_empty_uint) simp_all
  next
    assume a: "Required ?c \<and> exported (tfields (itype rv) ! ?i)" and "kind_of ?t = reflect_Bool"
    then show "fst (unmarshal_cols True (setField lib r) (cols r) (p # ps) rv record) =
             Some (NumError ''ParseBool'' [] ErrSyntax)"
      by (intro fails setField_empty_bool) simp_all
  next
    assume a: "Required ?c \<and> exported (tfields (itype rv) ! ?i)" and "kind_of ?t \<in> set float_kinds"
    then show "fst (unmarshal_cols True (setField lib r) (cols r) (p # ps) rv record) =
             Some (NumError ''ParseFloat'' [] ErrSyntax)"
      by (intro fails setField_empty_float) simp_all
  next
    fix m
    assume a: "Required ?c \<and> exported (tfields (itype rv) ! ?i)"
      and "base_type ?t = Ty reflect_Struct ''time.Time'' \<and> time_Parse lib (timeFormat r) [] = Inl m"
    then show "fst (unmarshal_cols True (setField lib r) (cols r) (p # ps) rv record) =
             Some (ParseError m)"
      by (intro fails setField_empty_time) simp_all
  qed
qed

text \<open>The claim as stated promises a coercion failure for every required numeric field.
  The required field \<^verbatim>\<open>age int\<close> is not exported, and the row with the empty cell is
  decoded without an error.\<close>

theorem unmarshal_empty_cell_counterexample:
  "NewDecodeStruct ascii_lib (PtrToStruct hidden_type) [] = Inr hidden_reader \<and>
   ParseHeader ascii_lib hidden_reader [''age''] = (None, hidden_bound) \<and>
   foundCols hidden_bound = [1] \<and>
   Required (cols hidden_bound ! 1) \<and>
   RecordIndex (cols hidden_bound ! 1) = 0 \<and>
   StructFieldIndex (cols hidden_bound ! 1) = 1 \<and>
   ftype (tfields hidden_type ! 1) = Ty reflect_Int ''int'' \<and>
   UnmarshalCSV ascii_lib hidden_bound [''''] (Pointer (New hidden_type))
     = (None, Pointer (New hidden_type))"
  by (simp add: readers_built hidden_bound_eq(1))
     (simp add: hidden_bound_eq(2) row_eval hidden_type_def)

text \<open>The row \<^verbatim>\<open>["Alice", "", ""]\<close>: the empty cell of the required \<^verbatim>\<open>Age\<close> fails,
  the empty cell of the optional \<^verbatim>\<open>Score\<close> is passed over.\<close>

theorem unmarshal_empty_cell_witness:
  "0 \<le> RecordIndex (cols person_bound ! 1) \<and>
   RecordIndex (cols person_bound ! 1) < int (length [''Alice'', '''', '''']) \<and>
   [''Alice'', '''', ''''] ! nat (RecordIndex (cols person_bound ! 1)) = [] \<and>
   StructFieldIndex (cols person_bound ! 1) < length (tfields (itype (New person_type))) \<and>
   StructFieldIndex (cols person_bound ! 1) < length (ivals (New person_type)) \<and>
   Required (cols person_bound ! 1) \<and>
   exported (tfields (itype (New person_type)) ! StructFieldIndex (cols person_bound ! 1)) \<and>
   kind_of (ftype (tfields (itype (New person_type)) ! StructFieldIndex (cols person_bound ! 1)))
     \<in> set int_kinds \<and>
   fst (unmarshal_cols True (setField ascii_lib person_bound) (cols person_bound) [1, 2]
          (New person_type) [''Alice'', '''', '''']) = Some (NumError ''ParseInt'' [] ErrSyntax) \<and>
   0 \<le> RecordIndex (cols person_bound ! 2) \<and>
   RecordIndex (cols person_bound ! 2) < int (length [''Alice'', '''', '''']) \<and>
   [''Alice'', '''', ''''] ! nat (RecordIndex (cols person_bound ! 2)) = [] \<and>
   StructFieldIndex (cols person_bound ! 2) < length (tfields (itype (New person_type))) \<and>
   StructFieldIndex (cols person_bound ! 2) < length (ivals (New person_type)) \<and>
   \<not> Required (cols person_bound ! 2) \<and>
   unmarshal_cols True (setField ascii_lib person_bound) (cols person_bound) [2]
          (New person_type) [''Alice'', '''', ''''] = (None, New person_type)"
proof -
  let ?rec = "[''Alice'', '''', '''']"
  have h1: "0 \<le> RecordIndex (cols person_bound ! 1)"
    and h2: "RecordIndex (cols person_bound ! 1) < int (length ?rec)"
    and h3: "?rec ! nat (RecordIndex (cols person_bound ! 1)) = []"
    and h4: "StructFieldIndex (cols person_bound ! 1) < length (tfields (itype (New person_type)))"
    and h5: "StructFieldIndex (cols person_bound ! 1) < length (ivals (New person_type))"
    by (simp_all add: person_bound_eq(2) decoder_for_def New_def person_type_def)
  have q: "Required (cols person_bound ! 1) \<and>
   exported (tfields (itype (New person_type)) ! StructFieldIndex (cols person_bound ! 1)) \<and>
   kind_of (ftype (tfields (itype (New person_type)) ! StructFieldIndex (cols person_bound ! 1)))
     \<in> set int_kinds"
    by (simp add: person_bound_eq(2) decoder_for_def New_def person_type_def int_kinds_def)
  from unmarshal_empty_cell[OF h1 h2 h3 h4 h5, of ascii_lib "[2]"] q
  have c: "fst (unmarshal_cols True (setField ascii_lib person_bound) (cols person_bound) [1, 2]
          (New person_type) ?rec) = Some (NumError ''ParseInt'' [] ErrSyntax)"
    by blast
  have g1: "0 \<le> RecordIndex (cols person_bound ! 2)"
    and g2: "RecordIndex (cols person_bound ! 2) < int (length ?rec)"
    and g3: "?rec ! nat (RecordIndex (cols person_bound ! 2)) = []"
    and g4: "StructFieldIndex (cols person_bound ! 2) < length (tfields (itype (New person_type)))"
    and g5: "StructFieldIndex (cols person_bound ! 2) < length (ivals (New person_type))"
    and g6: "\<not> Required (cols person_bound ! 2)"
    by (simp_all add: person_bound_eq(2) decoder_for_def New_def person_type_def)
  from unmarshal_empty_cell[OF g1 g2 g3 g4 g5, of ascii_lib "[]"] g6
  have d: "unmarshal_cols True (setField ascii_lib person_bound) (cols person_bound) [2]
          (New person_type) ?rec = (None, New person_type)"
    by simp
  from h1 h2 h3 h4 h5 q c g1 g2 g3 g4 g5 g6 d show ?thesis by blast
qed

section \<open>Coercion of integers\<close>

subsection \<open>What ParseUint and ParseInt accept\<close>

text \<open>
  \<^verbatim>\<open>ParseUint\<close> returns a number exactly for a non-empty string of decimal digits whose
  value is below \<open>2 ^ 64\<close>, and \<^verbatim>\<open>ParseInt\<close> exactly for such a string after at most one
  sign, with a value from \<open>- (2 ^ 63)\<close> to \<open>2 ^ 63 - 1\<close>.
\<close>

lemma digit_val_le: "is_digit c \<Longrightarrow> digit_val c \<le> 9"
  unfolding is_digit_def digit_val_def by simp arith

lemma foldl_decimal_ge: "n \<le> foldl (\<lambda>n c. n * 10 + digit_val c) n s"
proof (induction s arbitrary: n)
  case Nil
  then show ?case by simp
next
  case (Cons c s)
  have "n \<le> n * 10 + digit_val c" by simp
  also have "\<dots> \<le> foldl (\<lambda>n c. n * 10 + digit_val c) (n * 10 + digit_val c) s" by (rule Cons.IH)
  finally show ?case by simp
qed

lemma ParseUint_loop_step:
  assumes "is_digit c"
  shows "ParseUint_loop n (c # cs) =
           (if n * 10 + digit_val c \<le> maxUint64 then ParseUint_loop (n * 10 + digit_val c) cs
            else Inl ErrRange)"
proof -
  have d: "digit_val c \<le> 9" using assms by (rule digit_val_le)
  show ?thesis
  proof (cases "n \<ge> maxUint64 div 10 + 1")
    case True
    then have "n * 10 + digit_val c > maxUint64" by (simp add: maxUint64_def)
    with True assms show ?thesis by simp
  next
    case False
    then have n: "n * 10 \<le> 18446744073709551610" by (simp add: maxUint64_def)
    show ?thesis
    proof (cases "n * 10 + digit_val c \<le> maxUint64")
      case True
      then have "(n * 10 + digit_val c) mod 2 ^ 64 = n * 10 + digit_val c"
        by (simp add: maxUint64_def)
      with True False assms show ?thesis
        by (simp add: Let_def IntSize_def maxUint64_def)
    next
      case over: False
      then have ge: "2 ^ 64 \<le> n * 10 + digit_val c" by (simp add: maxUint64_def)
      have lt: "n * 10 + digit_val c < 2 * 2 ^ 64" using n d by simp
      have "(n * 10 + digit_val c) mod 2 ^ 64 = n * 10 + digit_val c - 2 ^ 64"
        using ge lt by (simp add: le_mod_geq)
      moreover have "n * 10 + digit_val c - 2 ^ 64 < n * 10" using ge d n by simp
      ultimately show ?thesis using over False assms by (simp add: Let_def)
    qed
  qed
qed

lemma ParseUint_loop_Inr:
  "ParseUint_loop n s = Inr m \<longleftrightarrow>
     list_all is_digit s \<and> (s \<noteq> [] \<longrightarrow> foldl (\<lambda>n c. n * 10 + digit_val c) n s \<le> maxUint64) \<and> m = foldl (\<lambda>n c. n * 10 + digit_val c) n s"
proof (induction s arbitrary: n)
  case Nil
  then show ?case by auto
next
  case (Cons c cs)
  show ?case
  proof (cases "is_digit c")
    case False
    then show ?thesis by simp
  next
    case True
    show ?thesis
    proof (cases "n * 10 + digit_val c \<le> maxUint64")
      case le: True
      have "cs = [] \<Longrightarrow> foldl (\<lambda>n c. n * 10 + digit_val c) (n * 10 + digit_val c) cs \<le> maxUint64" using le by simp
      with True le Cons.IH[of "n * 10 + digit_val c"] show ?thesis
        by (auto simp: ParseUint_loop_step simp del: ParseUint_loop.simps)
    next
      case over: False
      have "n * 10 + digit_val c \<le> foldl (\<lambda>n c. n * 10 + digit_val c) (n * 10 + digit_val c) cs"
        by (rule foldl_decimal_ge)
      with over have "\<not> foldl (\<lambda>n c. n * 10 + digit_val c) n (c # cs) \<le> maxUint64" by simp
      with True over show ?thesis
        by (simp add: ParseUint_loop_step del: ParseUint_loop.simps)
    qed
  qed
qed

lemma ParseUint_loop_syntax:
  "ParseUint_loop n s = Inl ErrSyntax \<Longrightarrow> \<not> list_all is_digit s"
proof (induction s arbitrary: n)
  case Nil
  then show ?case by simp
next
  case (Cons c cs)
  show ?case
  proof (cases "is_digit c")
    case False
    then show ?thesis by simp
  next
    case True
    with Cons.prems have "ParseUint_loop (n * 10 + digit_val c) cs = Inl ErrSyntax"
      by (simp add: ParseUint_loop_step del: ParseUint_loop.simps split: if_splits)
    from Cons.IH[OF this] show ?thesis by simp
  qed
qed

lemma ParseUint_Inr:
  "ParseUint s = Inr m \<longleftrightarrow> is_decimal s \<and> decimal_value s \<le> maxUint64 \<and> m = decimal_value s"
proof (cases "s = []")
  case True
  then show ?thesis by (simp add: ParseUint_def is_decimal_def)
next
  case False
  with ParseUint_loop_Inr[of 0 s m] show ?thesis
    by (cases "ParseUint_loop 0 s") (auto simp: ParseUint_def is_decimal_def decimal_value_def)
qed

lemma ParseInt_Inr:
  "ParseInt s = Inr i \<longleftrightarrow>
     is_decimal (unsigned_part s) \<and> - (2 ^ 63) \<le> int_value s \<and> int_value s < 2 ^ 63 \<and>
     i = int_value s"
proof (cases "s = []")
  case True
  then show ?thesis by (simp add: ParseInt_def unsigned_part_def is_decimal_def)
next
  case ne: False
  let ?u = "unsigned_part s"
  have neg: "(hd s = CHR ''-'') = is_negative s" using ne by (simp add: is_negative_def)
  have u: "(if hd s = CHR ''+'' \<or> hd s = CHR ''-'' then tl s else s) = ?u"
    using ne by (simp add: unsigned_part_def)
  show ?thesis
  proof (cases "?u = []")
    case True
    with ne neg u show ?thesis by (simp add: ParseInt_def is_decimal_def Let_def)
  next
    case une: False
    show ?thesis
    proof (cases "ParseUint_loop 0 ?u")
      case (Inl k)
      have notdec: "\<not> (is_decimal ?u \<and> decimal_value ?u \<le> maxUint64)"
        using Inl ParseUint_loop_Inr[of 0 ?u "decimal_value ?u"] une
        by (auto simp: is_decimal_def decimal_value_def)
      show ?thesis
      proof (cases k)
        case ErrSyntax
        with Inl have "\<not> list_all is_digit ?u" by (auto dest: ParseUint_loop_syntax)
        with Inl ErrSyntax ne une neg u show ?thesis
          by (simp add: ParseInt_def Let_def is_decimal_def)
      next
        case ErrRange
        have lhs: "ParseInt s = Inl (NumError ''ParseInt'' s ErrRange)"
          using Inl ErrRange ne une neg u
          by (simp add: ParseInt_def Let_def IntSize_def del: ParseUint_loop.simps)
        have "\<not> (is_decimal ?u \<and> - (2 ^ 63) \<le> int_value s \<and> int_value s < 2 ^ 63)"
          using notdec by (auto simp: int_value_def maxUint64_def split: if_splits)
        with lhs show ?thesis by auto
      qed
    next
      case (Inr n)
      then have d: "is_decimal ?u" "n = decimal_value ?u" "n \<le> maxUint64"
        using une by (auto simp: ParseUint_loop_Inr is_decimal_def decimal_value_def)
      from Inr ne une neg u d show ?thesis
        by (auto simp: ParseInt_def Let_def IntSize_def int_value_def maxUint64_def
            simp del: ParseUint_loop.simps)
    qed
  qed
qed

lemma Inl_or_Inr: "(\<forall>b. x \<noteq> Inr b) \<Longrightarrow> \<exists>a. x = Inl a"
  by (cases x) auto

lemma decimal_eval:
  "is_decimal ''300''" "decimal_value ''300'' = 300" "unsigned_part ''300'' = ''300''"
  "int_value ''300'' = 300" "is_decimal ''256''" "decimal_value ''256'' = 256"
  "\<not> is_decimal (unsigned_part ''3x'')"
  by (simp_all add: is_decimal_def decimal_value_def unsigned_part_def int_value_def is_negative_def
      is_digit_def digit_val_def)

subsection \<open>Narrowing to the field's width\<close>

text \<open>
  Claim C6, as amended. For a field of a signed integer kind \<^verbatim>\<open>setField\<close> succeeds
  exactly when the cell is a decimal numeral, after at most one sign, whose value lies in
  the 64-bit range of \<^verbatim>\<open>int\<close>; otherwise it returns the error of \<^verbatim>\<open>ParseInt\<close> and
  leaves the field as it was. On success the field holds the value narrowed to the
  field's width by keeping its low bits, which is the value itself exactly when the
  value is in the range of that width: a value that is out of range for the field but in
  the 64-bit range is stored wrapped around, without an error. The same holds for the
  unsigned kinds with \<^verbatim>\<open>ParseUint\<close>, no sign and the range below \<open>2 ^ 64\<close>.
\<close>

theorem setField_int_uint:
  "(k \<in> set int_kinds \<longrightarrow>
      (fst (setField lib r (Ty k n) old s) = None \<longleftrightarrow>
         is_decimal (unsigned_part s) \<and> - (2 ^ 63) \<le> int_value s \<and> int_value s < 2 ^ 63) \<and>
      (fst (setField lib r (Ty k n) old s) = None \<longrightarrow>
         snd (setField lib r (Ty k n) old s) = VInt (signed_take_bit (bits k - 1) (int_value s))) \<and>
      (fst (setField lib r (Ty k n) old s) \<noteq> None \<longrightarrow>
         (\<exists>e. fst (setField lib r (Ty k n) old s) = Some (NumError ''ParseInt'' s e)) \<and>
         snd (setField lib r (Ty k n) old s) = old) \<and>
      (signed_take_bit (bits k - 1) (int_value s) = int_value s \<longleftrightarrow>
         - (2 ^ (bits k - 1)) \<le> int_value s \<and> int_value s < 2 ^ (bits k - 1))) \<and>
   (k \<in> set uint_kinds \<longrightarrow>
      (fst (setField lib r (Ty k n) old s) = None \<longleftrightarrow>
         is_decimal s \<and> decimal_value s < 2 ^ 64) \<and>
      (fst (setField lib r (Ty k n) old s) = None \<longrightarrow>
         snd (setField lib r (Ty k n) old s) = VUint (take_bit (bits k) (decimal_value s))) \<and>
      (fst (setField lib r (Ty k n) old s) \<noteq> None \<longrightarrow>
         (\<exists>e. fst (setField lib r (Ty k n) old s) = Some (NumError ''ParseUint'' s e)) \<and>
         snd (setField lib r (Ty k n) old s) = old) \<and>
      (take_bit (bits k) (decimal_value s) = decimal_value s \<longleftrightarrow> decimal_value s < 2 ^ bits k))"
proof (intro conjI impI)
  assume k: "k \<in> set int_kinds"
  then have sf: "setField lib r (Ty k n) old s =
      (case ParseInt s of Inl err \<Rightarrow> (Some err, old) | Inr i \<Rightarrow> (None, SetInt k i))"
    by (auto simp: int_kinds_def)
  let ?ok = "is_decimal (unsigned_part s) \<and> - (2 ^ 63) \<le> int_value s \<and> int_value s < 2 ^ 63"
  have good: "ParseInt s = Inr (int_value s)" if ?ok
    using that ParseInt_Inr[of s "int_value s"] by simp
  have bad: "\<exists>e. ParseInt s = Inl (NumError ''ParseInt'' s e)" if "\<not> ?ok"
  proof -
    have "\<forall>b. ParseInt s \<noteq> Inr b" using that ParseInt_Inr[of s] by blast
    then obtain a where "ParseInt s = Inl a" by (auto dest: Inl_or_Inr)
    with ParseInt_error[of s a] show ?thesis by auto
  qed
  show "fst (setField lib r (Ty k n) old s) = None \<longleftrightarrow> ?ok"
    using good bad unfolding sf by (cases ?ok) auto
  show "snd (setField lib r (Ty k n) old s) = VInt (signed_take_bit (bits k - 1) (int_value s))"
    if "fst (setField lib r (Ty k n) old s) = None"
    using that good bad unfolding sf by (cases ?ok) (auto simp: SetInt_def simp del: bits.simps)
  show "\<exists>e. fst (setField lib r (Ty k n) old s) = Some (NumError ''ParseInt'' s e)"
    if "fst (setField lib r (Ty k n) old s) \<noteq> None"
    using that good bad unfolding sf by (cases ?ok) auto
  show "snd (setField lib r (Ty k n) old s) = old"
    if "fst (setField lib r (Ty k n) old s) \<noteq> None"
    using that good bad unfolding sf by (cases ?ok) auto
  show "signed_take_bit (bits k - 1) (int_value s) = int_value s \<longleftrightarrow>
         - (2 ^ (bits k - 1)) \<le> int_value s \<and> int_value s < 2 ^ (bits k - 1)"
    by (rule signed_take_bit_int_eq_self_iff)
next
  assume k: "k \<in> set uint_kinds"
  then have sf: "setField lib r (Ty k n) old s =
      (case ParseUint s of Inl err \<Rightarrow> (Some err, old) | Inr i \<Rightarrow> (None, SetUint k i))"
    by (auto simp: int_kinds_def uint_kinds_def)
  let ?ok = "is_decimal s \<and> decimal_value s < 2 ^ 64"
  have m: "decimal_value s \<le> maxUint64 \<longleftrightarrow> decimal_value s < 2 ^ 64"
    unfolding maxUint64_def by simp arith
  have good: "ParseUint s = Inr (decimal_value s)" if ?ok
    using that ParseUint_Inr[of s "decimal_value s"] m by simp
  have bad: "\<exists>e. ParseUint s = Inl (NumError ''ParseUint'' s e)" if "\<not> ?ok"
  proof -
    have "\<forall>b. ParseUint s \<noteq> Inr b" using that ParseUint_Inr[of s] m by blast
    then obtain a where "ParseUint s = Inl a" by (auto dest: Inl_or_Inr)
    with ParseUint_error[of s a] show ?thesis by auto
  qed
  show "fst (setField lib r (Ty k n) old s) = None \<longleftrightarrow> ?ok"
    using good bad unfolding sf by (cases ?ok) auto
  show "snd (setField lib r (Ty k n) old s) = VUint (take_bit (bits k) (decimal_value s))"
    if "fst (setField lib r (Ty k n) old s) = None"
    using that good bad unfolding sf by (cases ?ok) (auto simp: SetUint_def simp del: bits.simps)
  show "\<exists>e. fst (setField lib r (Ty k n) old s) = Some (NumError ''ParseUint'' s e)"
    if "fst (setField lib r (Ty k n) old s) \<noteq> None"
    using that good bad unfolding sf by (cases ?ok) auto
  show "snd (setField lib r (Ty k n) old s) = old"
    if "fst (setField lib r (Ty k n) old s) \<noteq> None"
    using that good bad unfolding sf by (cases ?ok) auto
  show "take_bit (bits k) (decimal_value s) = decimal_value s \<longleftrightarrow> decimal_value s < 2 ^ bits k"
    by (rule take_bit_nat_eq_self_iff)
qed

text \<open>The claim as stated promises an error for a value out of the range of the field's
  width. The cell \<^verbatim>\<open>300\<close> for the field \<^verbatim>\<open>Level int8\<close> is decoded without an error,
  and the field holds \<open>44\<close>.\<close>

theorem setField_int_uint_counterexample:
  "NewDecodeStruct ascii_lib (PtrToStruct gauge_type) [] = Inr gauge_reader \<and>
   ParseHeader ascii_lib gauge_reader [''Level''] = (None, gauge_bound) \<and>
   ftype (tfields gauge_type ! 0) = Ty reflect_Int8 ''int8'' \<and>
   (127 :: int) < int_value ''300'' \<and>
   UnmarshalCSV ascii_lib gauge_bound [''300''] (Pointer (New gauge_type)) =
     (None, Pointer \<lparr>itype = gauge_type, ivals = [VInt 44]\<rparr>)"
  by (simp add: readers_built gauge_bound_eq(1) decimal_eval)
     (simp add: gauge_bound_eq(2) row_eval gauge_type_def)

theorem setField_int_uint_witness:
  "reflect_Int8 \<in> set int_kinds \<and>
   fst (setField ascii_lib gauge_bound (Ty reflect_Int8 ''int8'') (VInt 0) ''300'') = None \<and>
   snd (setField ascii_lib gauge_bound (Ty reflect_Int8 ''int8'') (VInt 0) ''300'') = VInt 44 \<and>
   fst (setField ascii_lib gauge_bound (Ty reflect_Int8 ''int8'') (VInt 0) ''3x'') \<noteq> None \<and>
   snd (setField ascii_lib gauge_bound (Ty reflect_Int8 ''int8'') (VInt 0) ''3x'') = VInt 0 \<and>
   reflect_Uint8 \<in> set uint_kinds \<and>
   fst (setField ascii_lib gauge_bound (Ty reflect_Uint8 ''uint8'') (VUint 7) ''256'') = None \<and>
   snd (setField ascii_lib gauge_bound (Ty reflect_Uint8 ''uint8'') (VUint 7) ''256'') = VUint 0"
proof -
  have k: "reflect_Int8 \<in> set int_kinds" "reflect_Uint8 \<in> set uint_kinds"
    by (simp_all add: int_kinds_def uint_kinds_def)
  note i = setField_int_uint[of reflect_Int8 ascii_lib gauge_bound "''int8''" "VInt 0" "''300''"]
  note j = setField_int_uint[of reflect_Int8 ascii_lib gauge_bound "''int8''" "VInt 0" "''3x''"]
  note u = setField_int_uint[of reflect_Uint8 ascii_lib gauge_bound "''uint8''" "VUint 7" "''256''"]
  have a: "fst (setField ascii_lib gauge_bound (Ty reflect_Int8 ''int8'') (VInt 0) ''300'') = None"
    using i k(1) by (simp add: decimal_eval del: setField.simps)
  have b: "snd (setField ascii_lib gauge_bound (Ty reflect_Int8 ''int8'') (VInt 0) ''300'') = VInt 44"
    using i k(1) a by (simp add: decimal_eval del: setField.simps)
  have c: "fst (setField ascii_lib gauge_bound (Ty reflect_Int8 ''int8'') (VInt 0) ''3x'') \<noteq> None"
    using j k(1) decimal_eval(7) by (simp del: setField.simps)
  have d: "snd (setField ascii_lib gauge_bound (Ty reflect_Int8 ''int8'') (VInt 0) ''3x'') = VInt 0"
    using j k(1) c by (simp del: setField.simps)
  have e: "fst (setField ascii_lib gauge_bound (Ty reflect_Uint8 ''uint8'') (VUint 7) ''256'') = None"
    using u k(2) by (simp add: decimal_eval del: setField.simps)
  have f: "snd (setField ascii_lib gauge_bound (Ty reflect_Uint8 ''uint8'') (VUint 7) ''256'') = VUint 0"
    using u k(2) e by (simp add: decimal_eval del: setField.simps)
  from k a b c d e f show ?thesis by blast
qed

section \<open>Building the schema\<close>

subsection \<open>The loop of NewDecodeStruct\<close>


lemma isSupportedField_v2_base:
  "isSupportedField_v2 t \<longleftrightarrow>
     kind_of t \<notin> set [reflect_Map, reflect_Slice, reflect_Array] \<and>
     (kind_of t = reflect_Struct \<longrightarrow> base_type t = Ty reflect_Struct ''time.Time'')"
  by (induction t) auto

lemma apply_opt_cols [simp]: "cols (apply_opt a rd) = cols rd" "foundCols (apply_opt a rd) = foundCols rd"
  by (cases a; simp)+

lemma fold_apply_opt_cols [simp]:
  "cols (fold apply_opt opts rd) = cols rd" "foundCols (fold apply_opt opts rd) = foundCols rd"
  by (induction opts arbitrary: rd) simp_all

lemma NewDecodeStruct_fields_step:
  assumes "\<forall>c cs sep. strings_Split lib (c # cs) sep \<noteq> []" and "supp (ftype f)"
  shows "\<exists>reader1. NewDecodeStruct_fields supp lib reader (f # fs) i =
                     NewDecodeStruct_fields supp lib reader1 fs (Suc i)"
proof -
  let ?tag = "Tag_Get (ftag f) (csvTagName reader)"
  show ?thesis
  proof (cases "?tag = ''-''")
    case True
    with assms(2) show ?thesis by (auto simp: Let_def)
  next
    case ni: False
    show ?thesis
    proof (cases "?tag = []")
      case True
      with assms(2) ni show ?thesis by (auto simp: Let_def)
    next
      case False
      then obtain c cs where "?tag = c # cs" by (cases ?tag) auto
      with assms(1) have "strings_Split lib ?tag (csvTagFieldSep reader) \<noteq> []" by simp
      then obtain h rest where "strings_Split lib ?tag (csvTagFieldSep reader) = h # rest"
        by (cases "strings_Split lib ?tag (csvTagFieldSep reader)") auto
      with assms(2) ni False show ?thesis by (auto simp: Let_def)
    qed
  qed
qed

lemma NewDecodeStruct_fields_fail:
  assumes "\<forall>c cs sep. strings_Split lib (c # cs) sep \<noteq> []"
  shows "(case find (\<lambda>f. \<not> supp (ftype f)) fs of
            Some f \<Rightarrow> NewDecodeStruct_fields supp lib reader fs i =
                        Inl (Panic (unsupported_msg (type_String (ftype f))))
          | None \<Rightarrow> (\<exists>reader'. NewDecodeStruct_fields supp lib reader fs i = Inr reader'))"
proof (induction fs arbitrary: reader i)
  case Nil
  then show ?case by simp
next
  case (Cons f fs)
  show ?case
  proof (cases "supp (ftype f)")
    case False
    then show ?thesis by simp
  next
    case True
    from NewDecodeStruct_fields_step[of lib supp f reader fs i] assms True obtain reader1 where
      step: "NewDecodeStruct_fields supp lib reader (f # fs) i =
               NewDecodeStruct_fields supp lib reader1 fs (Suc i)" by blast
    show ?thesis unfolding step using Cons.IH[of reader1 "Suc i"] True
      by (simp del: NewDecodeStruct_fields.simps)
  qed
qed



lemma NewDecodeStruct_with_struct:
  assumes "v = StructVal st \<or> v = PtrToStruct st"
  shows "NewDecodeStruct_with supp lib v opts =
     (case NewDecodeStruct_fields supp lib (fold apply_opt opts new_reader) (tfields st) 0 of
        Inl e \<Rightarrow> Inl e
      | Inr rd \<Rightarrow> Inr (rd\<lparr>recordType := st\<rparr>))"
  using assms by (auto simp: NewDecodeStruct_with_def)

lemma NewDecodeStruct_with_fail:
  assumes "\<forall>c cs sep. strings_Split lib (c # cs) sep \<noteq> []"
    and "v = StructVal st \<or> v = PtrToStruct st"
  shows "(case find (\<lambda>f. \<not> supp (ftype f)) (tfields st) of
            Some f \<Rightarrow> NewDecodeStruct_with supp lib v opts =
                        Inl (Panic (unsupported_msg (type_String (ftype f))))
          | None \<Rightarrow> (\<exists>r. NewDecodeStruct_with supp lib v opts = Inr r))"
  using NewDecodeStruct_fields_fail[OF assms(1), where supp=supp and fs="tfields st"
      and reader="fold apply_opt opts new_reader" and i=0]
  by (auto simp: NewDecodeStruct_with_struct[OF assms(2)] split: option.splits)

lemma NewDecodeStruct_with_fail_iff:
  assumes "\<forall>c cs sep. strings_Split lib (c # cs) sep \<noteq> []"
    and "v = StructVal st \<or> v = PtrToStruct st"
  shows "(\<exists>e. NewDecodeStruct_with supp lib v opts = Inl e) \<longleftrightarrow> (\<exists>f\<in>set (tfields st). \<not> supp (ftype f))"
  using NewDecodeStruct_with_fail[OF assms, where supp=supp and opts=opts]
  by (auto simp: find_None_iff find_Some_iff split: option.splits)




subsection \<open>Unsupported types\<close>




subsection \<open>Ignored fields\<close>




section \<open>The second revision\<close>

text \<open>
  Where the second revision of the file differs from the first: its
  \<^verbatim>\<open>isSupportedField\<close> refuses only maps, slices, arrays and structs other than
  \<^verbatim>\<open>time.Time\<close>; its \<^verbatim>\<open>unmarshal\<close> coerces the empty cell of an optional column; and
  its \<^verbatim>\<open>setField\<close> looks through one pointer only.
\<close>

lemma NewDecodeStruct_v2_unsupported:
  assumes "\<forall>c cs sep. strings_Split lib (c # cs) sep \<noteq> []"
    and "v = StructVal st \<or> v = PtrToStruct st"
  shows "(\<exists>e. NewDecodeStruct_v2 lib v opts = Inl e) \<longleftrightarrow>
            (\<exists>f\<in>set (tfields st).
               kind_of (ftype f) \<in> set [reflect_Map, reflect_Slice, reflect_Array] \<or>
               kind_of (ftype f) = reflect_Struct \<and>
               base_type (ftype f) \<noteq> Ty reflect_Struct ''time.Time'')"
  unfolding NewDecodeStruct_v2_def NewDecodeStruct_with_fail_iff[OF assms]
  by (auto simp: isSupportedField_v2_base)

lemma second_revision_empty_optional:
  "UnmarshalCSV ascii_lib person_bound [''Alice'', ''30'', ''''] (Pointer (New person_type)) =
     (None, Pointer \<lparr>itype = person_type, ivals = [VString ''Alice'', VInt 30, VFloat64 0]\<rparr>)"
  "UnmarshalCSV_v2 ascii_lib person_bound [''Alice'', ''30'', ''''] (Pointer (New person_type)) =
     (Some (NumError ''ParseFloat'' [] ErrSyntax),
      Pointer \<lparr>itype = person_type, ivals = [VString ''Alice'', VInt 30, VFloat64 0]\<rparr>)"
  by (simp_all add: person_bound_eq(2) row_eval UnmarshalCSV_v2_def unmarshal_v2_def person_type_def)

lemma second_revision_pointer_to_pointer:
  "setField_v2 ascii_lib deep_reader (PtrTo (PtrTo (Ty reflect_Int ''int''))) (VPtr None) ''7'' =
     (Some (ErrorString (unsupported_msg ''<*int Value>'')), VPtr (Some (VPtr None)))"
  by (simp add: Value_String_def)

end
